theory Spec2Isabelle
  imports Main "HOL-Library.Word"
begin

section \<open>Python values used by the application\<close>

text \<open>
  Python \<open>str\<close> is modelled as \<open>string\<close>, \<open>bytes\<close> as a list of 8-bit words.
  Exceptions are values: the class decides which \<open>except\<close> clause catches, the
  message is what \<open>str(e)\<close> returns.
\<close>

type_synonym bytes = "8 word list"

datatype exc_class =
    Exception
  | TypeError
  | ValueError
  | BinasciiError
  | OSError
  | FileNotFoundError
  | FileExistsError
  | NotADirectoryError
  | IsADirectoryError
  | PermissionError

datatype exn = Raised (exc_class: exc_class) (str: string)

text \<open>\<open>binascii.Error\<close> derives from \<open>ValueError\<close>; \<open>IOError\<close> is \<open>OSError\<close>.\<close>

fun is_ValueError :: "exc_class \<Rightarrow> bool" where
  "is_ValueError ValueError = True"
| "is_ValueError BinasciiError = True"
| "is_ValueError _ = False"

fun is_OSError :: "exc_class \<Rightarrow> bool" where
  "is_OSError OSError = True"
| "is_OSError FileNotFoundError = True"
| "is_OSError FileExistsError = True"
| "is_OSError NotADirectoryError = True"
| "is_OSError IsADirectoryError = True"
| "is_OSError PermissionError = True"
| "is_OSError _ = False"

text \<open>\<open>sub in s\<close>, \<open>s.startswith(p)\<close>, \<open>s.endswith(e)\<close> and \<open>s.lower()\<close> on ASCII.\<close>

definition startswith :: "string \<Rightarrow> string \<Rightarrow> bool" where
  "startswith s p = (take (length p) s = p)"

definition endswith :: "string \<Rightarrow> string \<Rightarrow> bool" where
  "endswith s e = (length e \<le> length s \<and> drop (length s - length e) s = e)"

fun contains_str :: "string \<Rightarrow> string \<Rightarrow> bool" where
  "contains_str sub [] = (sub = [])"
| "contains_str sub (c # cs) = (startswith (c # cs) sub \<or> contains_str sub cs)"

definition lower_char :: "char \<Rightarrow> char" where
  "lower_char c =
     (let n = (of_char c :: nat) in if 65 \<le> n \<and> n \<le> 90 then char_of (n + 32) else c)"

definition lower :: "string \<Rightarrow> string" where
  "lower s = map lower_char s"

section \<open>Session context (auth/authentication.py)\<close>

text \<open>
  \<open>current_user\<close> of the login extension: \<open>None\<close> is the anonymous user,
  \<open>Some u\<close> the signed-in user named \<open>u\<close>.
\<close>

type_synonym session = "string option"

definition is_authenticated :: "session \<Rightarrow> bool" where
  "is_authenticated current_user = (current_user \<noteq> None)"

definition logout :: "session \<Rightarrow> session" where
  "logout current_user = None"

definition get_current_username :: "session \<Rightarrow> exn + string" where
  "get_current_username current_user =
     (case current_user of
        None \<Rightarrow> Inl (Raised PermissionError ''No authenticated user found'')
      | Some username \<Rightarrow> Inr username)"

section \<open>Access guard (callbacks/layout_callbacks.py)\<close>

text \<open>
  A page of the registry has a path and may have a location tag. The registry is the
  list of its values in registration order.
\<close>

record page =
  page_path :: string
  page_location :: "string option"

definition PROTECTED_LOCATIONS :: "string option set" where
  "PROTECTED_LOCATIONS = {Some ''app''}"

definition AUTH_LOCATIONS :: "string option set" where
  "AUTH_LOCATIONS = {Some ''auth''}"

definition get_location :: "page list \<Rightarrow> string \<Rightarrow> string option" where
  "get_location page_registry pathname =
     (case find (\<lambda>page. contains_str (page_path page) pathname) page_registry of
        None \<Rightarrow> None
      | Some current_page \<Rightarrow> page_location current_page)"

datatype navigation = RedirectTo string | no_update

text \<open>\<open>if logout_clicks:\<close> on an \<open>int or None\<close>.\<close>

definition clicked :: "int option \<Rightarrow> bool" where
  "clicked logout_clicks = (case logout_clicks of None \<Rightarrow> False | Some n \<Rightarrow> n \<noteq> 0)"

definition auth_guard_and_logout ::
  "page list \<Rightarrow> session \<Rightarrow> string \<Rightarrow> int option \<Rightarrow> session \<times> navigation" where
  "auth_guard_and_logout page_registry current_user pathname logout_clicks =
     (if clicked logout_clicks then (logout current_user, RedirectTo ''/login'')
      else
        let user_authenticated = is_authenticated current_user;
            page_location = get_location page_registry pathname
        in if user_authenticated \<and> page_location \<notin> PROTECTED_LOCATIONS
           then (current_user, RedirectTo ''/select-images'')
           else if \<not> user_authenticated \<and> page_location \<notin> AUTH_LOCATIONS
           then (current_user, RedirectTo ''/login'')
           else (current_user, no_update))"

text \<open>The registry the guard's tests install.\<close>

definition test_registry :: "page list" where
  "test_registry =
     [\<lparr>page_path = ''/login'', page_location = Some ''auth''\<rparr>,
      \<lparr>page_path = ''/select-images'', page_location = Some ''app''\<rparr>,
      \<lparr>page_path = ''/register'', page_location = Some ''auth''\<rparr>,
      \<lparr>page_path = ''/review'', page_location = Some ''app''\<rparr>,
      \<lparr>page_path = ''/review-images'', page_location = Some ''app''\<rparr>,
      \<lparr>page_path = ''/'', page_location = Some ''home''\<rparr>]"

section \<open>Paths (pathlib on POSIX)\<close>

text \<open>
  A path is the list of its \<open>parts\<close>: the root (\<open>/\<close>, or \<open>//\<close> for exactly two
  leading slashes) first when the path is absolute, then the components; empty and
  \<open>.\<close> components are dropped when a string is parsed, \<open>..\<close> is kept.
\<close>

type_synonym path = "string list"

fun split_on :: "char \<Rightarrow> string \<Rightarrow> string list" where
  "split_on sep [] = [[]]"
| "split_on sep (c # cs) =
     (if c = sep then [] # split_on sep cs
      else (case split_on sep cs of [] \<Rightarrow> [[c]] | r # rs \<Rightarrow> (c # r) # rs))"

definition path_root :: "string \<Rightarrow> string list" where
  "path_root s =
     (if startswith s ''//'' \<and> \<not> startswith s ''///'' then [''//'']
      else if startswith s ''/'' then [''/'']
      else [])"

definition Path :: "string \<Rightarrow> path" where
  "Path s = path_root s @ filter (\<lambda>x. x \<noteq> [] \<and> x \<noteq> ''.'') (split_on CHR ''/'' s)"

text \<open>\<open>p / s\<close>: an absolute right-hand side replaces the left.\<close>

definition joinpath :: "path \<Rightarrow> string \<Rightarrow> path" where
  "joinpath p s = (if startswith s ''/'' then Path s else p @ Path s)"

text \<open>\<open>p.name\<close>: the last component, empty for a path that is only a root.\<close>

definition path_name :: "path \<Rightarrow> string" where
  "path_name p = (if p = [] \<or> startswith (last p) ''/'' then [] else last p)"

fun join_sep :: "string list \<Rightarrow> string" where
  "join_sep [] = []"
| "join_sep [x] = x"
| "join_sep (x # y # ys) = x @ ''/'' @ join_sep (y # ys)"

definition path_str :: "path \<Rightarrow> string" where
  "path_str p =
     (case p of
        [] \<Rightarrow> ''.''
      | r # rest \<Rightarrow> if startswith r ''/'' then r @ join_sep rest else join_sep (r # rest))"

section \<open>File system\<close>

text \<open>
  The directories and the regular files, by path. Paths are compared part by part:
  there are no links and \<open>..\<close> is not resolved.
\<close>

record filesystem =
  dirs :: "path set"
  files :: "path \<rightharpoonup> bytes"

definition is_file :: "filesystem \<Rightarrow> path \<Rightarrow> bool" where
  "is_file fs p = (files fs p \<noteq> None)"

definition exists_path :: "filesystem \<Rightarrow> path \<Rightarrow> bool" where
  "exists_path fs p = (p \<in> dirs fs \<or> is_file fs p)"

definition parents :: "path \<Rightarrow> path list" where
  "parents p = map (\<lambda>n. take n p) [1..<length p]"

text \<open>
  \<open>p.mkdir(parents=True, exist_ok=True)\<close>: fails when \<open>p\<close> is a regular file or lies
  below one; otherwise \<open>p\<close> and its missing parents become directories.
\<close>

definition mkdir :: "filesystem \<Rightarrow> path \<Rightarrow> exn + filesystem" where
  "mkdir fs p =
     (if is_file fs p
      then Inl (Raised FileExistsError (''[Errno 17] File exists: '' @ [CHR 0x27] @ path_str p @ [CHR 0x27]))
      else if list_ex (is_file fs) (parents p)
      then Inl (Raised NotADirectoryError (''[Errno 20] Not a directory: '' @ [CHR 0x27] @ path_str p @ [CHR 0x27]))
      else Inr (fs\<lparr>dirs := dirs fs \<union> set (parents p) \<union> {p}\<rparr>))"

section \<open>Library behaviour taken as a parameter\<close>

text \<open>
  The base64 codec and the imaging library are not code of this repository. Each of
  their functions is a field of the record below; the application code is modelled for
  every value of it.
  \<^item> \<open>b64decode s\<close>: \<open>base64.b64decode(s)\<close>, the bytes or the exception raised.
  \<^item> \<open>image_open c\<close>: \<open>Image.open(BytesIO(c))\<close>, the exception raised if any.
  \<^item> \<open>image_verify c\<close>: \<open>img.verify()\<close> on the opened image.
  \<^item> \<open>image_save c p\<close>: \<open>image.save(p)\<close> for the image opened from \<open>c\<close>: the bytes
    written, or the exception raised.
  \<^item> \<open>image_save_leftover c p old\<close>: the bytes a failed save leaves at \<open>p\<close>, given
    what was there (\<open>None\<close>: the failed save touched nothing).
  \<^item> \<open>tiff_encode a\<close>: \<open>Image.fromarray(a)\<close> saved with \<open>format="TIFF"\<close>.
\<close>

record ndarray =
  shape :: "nat list"
  dtype :: string
  buffer :: bytes

record library =
  b64decode :: "string \<Rightarrow> exn + bytes"
  image_open :: "bytes \<Rightarrow> exn option"
  image_verify :: "bytes \<Rightarrow> exn option"
  image_save :: "bytes \<Rightarrow> path \<Rightarrow> exn + bytes"
  image_save_leftover :: "bytes \<Rightarrow> path \<Rightarrow> bytes option \<Rightarrow> bytes option"
  tiff_encode :: "ndarray \<Rightarrow> exn + bytes"

section \<open>Storage layout and image utilities (file_io/file_utilities.py)\<close>

text \<open>\<open>DEFAULT_USER_BASE_FOLDER\<close> is read from the configuration: a parameter.\<close>

definition create_user_directory :: "path \<Rightarrow> filesystem \<Rightarrow> string \<Rightarrow> exn + filesystem" where
  "create_user_directory DEFAULT_USER_BASE_FOLDER fs username =
     (let user_folder_path = joinpath DEFAULT_USER_BASE_FOLDER username
      in case mkdir fs user_folder_path of
           Inl e \<Rightarrow> Inl (Raised OSError (''Failed to create user directory for '' @ username))
         | Inr fs' \<Rightarrow> Inr fs')"

definition get_user_directory :: "path \<Rightarrow> filesystem \<Rightarrow> string \<Rightarrow> exn + path" where
  "get_user_directory DEFAULT_USER_BASE_FOLDER fs username =
     (let user_dir = joinpath DEFAULT_USER_BASE_FOLDER username
      in if \<not> exists_path fs user_dir
         then Inl (Raised FileNotFoundError (''User directory does not exist: '' @ path_str user_dir))
         else Inr user_dir)"

definition get_tiff_bytes :: "library \<Rightarrow> ndarray \<Rightarrow> exn + bytes" where
  "get_tiff_bytes lib array =
     (case tiff_encode lib array of
        Inl e \<Rightarrow> Inl (Raised OSError (''Failed to convert image array to TIFF image bytes: '' @ str e))
      | Inr data_bytes \<Rightarrow> Inr data_bytes)"

text \<open>
  A zip archive is the list of its entries (name, data) in the order they were written.
  \<open>str_nat\<close> is \<open>str(idx)\<close>.
\<close>

type_synonym archive = "(string \<times> bytes) list"

fun str_nat :: "nat \<Rightarrow> string" where
  "str_nat n =
     (if n < 10 then [char_of (48 + n)] else str_nat (n div 10) @ [char_of (48 + n mod 10)])"

fun write_entries :: "library \<Rightarrow> nat \<Rightarrow> ndarray list \<Rightarrow> archive \<Rightarrow> exn + archive" where
  "write_entries lib idx [] zipf = Inr zipf"
| "write_entries lib idx (img # rest) zipf =
     (let filename = str_nat idx @ ''.tif''
      in case get_tiff_bytes lib img of
           Inl e \<Rightarrow> Inl e
         | Inr tiff_bytes \<Rightarrow> write_entries lib (Suc idx) rest (zipf @ [(filename, tiff_bytes)]))"

definition create_tif_zip_archive :: "library \<Rightarrow> ndarray list \<Rightarrow> exn + archive" where
  "create_tif_zip_archive lib image_arrays =
     (case write_entries lib 0 image_arrays [] of
        Inl e \<Rightarrow> Inl (Raised OSError (''Failed to create TIFF zip archive: '' @ str e))
      | Inr zip_buffer \<Rightarrow> Inr zip_buffer)"

definition validate_image_content :: "library \<Rightarrow> bytes \<Rightarrow> exn + unit" where
  "validate_image_content lib content =
     (case (case image_open lib content of
              Some e \<Rightarrow> Inl e
            | None \<Rightarrow> (case image_verify lib content of Some e \<Rightarrow> Inl e | None \<Rightarrow> Inr ())) of
        Inl e \<Rightarrow>
          if is_OSError (exc_class e) \<or> is_ValueError (exc_class e)
          then Inl (Raised ValueError (''Invalid image content: '' @ str e))
          else Inl e
      | Inr u \<Rightarrow> Inr u)"

text \<open>\<open>content_str.split(",", 1)[1]\<close>, for a string that has a comma.\<close>

definition after_comma :: "string \<Rightarrow> string" where
  "after_comma content_str = tl (dropWhile (\<lambda>c. c \<noteq> CHR '','') content_str)"

definition decode_base64_image :: "library \<Rightarrow> string \<Rightarrow> exn + bytes" where
  "decode_base64_image lib content_str =
     (case (if CHR '','' \<notin> set content_str
            then Inl (Raised ValueError ''Input string does not contain a comma to split header and data.'')
            else (case b64decode lib (after_comma content_str) of
                    Inl e \<Rightarrow> Inl e
                  | Inr decoded_content_bytes \<Rightarrow>
                      if decoded_content_bytes = []
                      then Inl (Raised ValueError ''Decoded image content is empty.'')
                      else Inr decoded_content_bytes)) of
        Inl e \<Rightarrow>
          if is_ValueError (exc_class e)
          then Inl (Raised ValueError (''Failed to decode base64 image: '' @ str e))
          else Inl e
      | Inr decoded \<Rightarrow> Inr decoded)"

text \<open>
  \<open>image.save(file_path)\<close> on the file system: a directory cannot be opened for
  writing; a successful save stores the bytes written; a failed one changes nothing
  but, at most, the file at \<open>file_path\<close>, which then holds what the library left.
\<close>

definition save_to :: "library \<Rightarrow> filesystem \<Rightarrow> bytes \<Rightarrow> path \<Rightarrow> exn option \<times> filesystem" where
  "save_to lib fs content file_path =
     (case image_save lib content file_path of
        Inl e \<Rightarrow>
          (Some e,
           if file_path \<in> dirs fs then fs
           else (case image_save_leftover lib content file_path (files fs file_path) of
                   None \<Rightarrow> fs
                 | Some left \<Rightarrow> fs\<lparr>files := (files fs)(file_path \<mapsto> left)\<rparr>))
      | Inr written \<Rightarrow>
          if file_path \<in> dirs fs
          then (Some (Raised IsADirectoryError
                  (''[Errno 21] Is a directory: '' @ [CHR 0x27] @ path_str file_path @ [CHR 0x27])), fs)
          else (None, fs\<lparr>files := (files fs)(file_path \<mapsto> written)\<rparr>))"

definition save_image_from_bytes ::
  "library \<Rightarrow> filesystem \<Rightarrow> bytes \<Rightarrow> string \<Rightarrow> path \<Rightarrow> (exn + path) \<times> filesystem" where
  "save_image_from_bytes lib fs content filename upload_dir =
     (let failed = (\<lambda>e. Inl (Raised OSError
            (''Failed to save image '' @ [CHR 0x27] @ filename @ [CHR 0x27] @ '': '' @ str e)))
      in case mkdir fs upload_dir of
           Inl e \<Rightarrow> (failed e, fs)
         | Inr fs1 \<Rightarrow>
             (case image_open lib content of
                Some e \<Rightarrow> (failed e, fs1)
              | None \<Rightarrow>
                  let safe_filename = path_name (Path filename);
                      file_path = joinpath upload_dir safe_filename
                  in case save_to lib fs1 content file_path of
                       (Some e, fs2) \<Rightarrow> (failed e, fs2)
                     | (None, fs2) \<Rightarrow> (Inr file_path, fs2)))"

section \<open>Upload callbacks (callbacks/app/select_images_callbacks.py)\<close>

record UploadResponse =
  type :: string
  message :: string
  valid_files :: "string list"
  errors :: "string list"

text \<open>\<open>errors or other\<close> on a list.\<close>

definition or_else :: "'a list \<Rightarrow> 'a list \<Rightarrow> 'a list" where
  "or_else xs other = (if xs = [] then other else xs)"

definition upload_error_response :: "string \<Rightarrow> string list \<Rightarrow> UploadResponse" where
  "upload_error_response msg errs =
     \<lparr>type = ''error'', message = msg, valid_files = [], errors = or_else errs []\<rparr>"

definition empty_upload_response :: UploadResponse where
  "empty_upload_response =
     \<lparr>type = ''empty'', message = ''No files uploaded'', valid_files = [], errors = []\<rparr>"

definition successful_upload_response ::
  "string \<Rightarrow> string list \<Rightarrow> string list \<Rightarrow> UploadResponse" where
  "successful_upload_response upload_type saved errs =
     \<lparr>type = upload_type, message = ''Upload completed'', valid_files = saved,
      errors = or_else errs []\<rparr>"

definition valid_extensions :: "string list" where
  "valid_extensions = [''.tif'', ''.tiff'', ''.png'', ''.jpg'', ''.jpeg'']"

definition validate_file_extension :: "string \<Rightarrow> exn + unit" where
  "validate_file_extension filename =
     (if \<not> list_ex (\<lambda>ext. endswith (lower filename) ext) valid_extensions
      then Inl (Raised ValueError (''Unsupported file type: '' @ filename))
      else Inr ())"

text \<open>
  The body of the \<open>try\<close> inside the loop, for one (content, filename): the name to
  append to \<open>saved_files\<close>, or the exception the \<open>except\<close> clause receives.
\<close>

definition process_file ::
  "library \<Rightarrow> path \<Rightarrow> filesystem \<Rightarrow> string \<Rightarrow> string \<Rightarrow> (exn + string) \<times> filesystem" where
  "process_file lib image_dir fs content filename =
     (case validate_file_extension filename of
        Inl e \<Rightarrow> (Inl e, fs)
      | Inr _ \<Rightarrow>
          (case decode_base64_image lib content of
             Inl e \<Rightarrow> (Inl e, fs)
           | Inr decoded_content \<Rightarrow>
               (case validate_image_content lib decoded_content of
                  Inl e \<Rightarrow> (Inl e, fs)
                | Inr _ \<Rightarrow>
                    (case save_image_from_bytes lib fs decoded_content filename image_dir of
                       (Inl e, fs') \<Rightarrow> (Inl e, fs')
                     | (Inr saved_path, fs') \<Rightarrow> (Inr (path_name saved_path), fs')))))"

text \<open>The \<open>for content, filename in zip(contents, filenames)\<close> loop with its two lists.\<close>

fun process_loop ::
  "library \<Rightarrow> path \<Rightarrow> (string \<times> string) list \<Rightarrow> string list \<Rightarrow> string list \<Rightarrow> filesystem
   \<Rightarrow> string list \<times> string list \<times> filesystem" where
  "process_loop lib image_dir [] saved_files errs fs = (saved_files, errs, fs)"
| "process_loop lib image_dir ((content, filename) # rest) saved_files errs fs =
     (case process_file lib image_dir fs content filename of
        (Inr name, fs') \<Rightarrow> process_loop lib image_dir rest (saved_files @ [name]) errs fs'
      | (Inl e, fs') \<Rightarrow>
          process_loop lib image_dir rest saved_files (errs @ [filename @ '': '' @ str e]) fs')"

definition process_uploaded_images ::
  "library \<Rightarrow> path \<Rightarrow> session \<Rightarrow> filesystem \<Rightarrow> string list \<Rightarrow> string list
   \<Rightarrow> (exn + string list \<times> string list) \<times> filesystem" where
  "process_uploaded_images lib base current_user fs contents filenames =
     (case get_current_username current_user of
        Inl e \<Rightarrow> (Inl e, fs)
      | Inr username \<Rightarrow>
          if username = [] then (Inl (Raised ValueError ''No authenticated user found''), fs)
          else (case get_user_directory base fs username of
                  Inl e \<Rightarrow> (Inl e, fs)
                | Inr user_dir \<Rightarrow>
                    let image_dir = joinpath user_dir ''images''
                    in case process_loop lib image_dir (zip contents filenames) [] [] fs of
                         (saved_files, errs, fs') \<Rightarrow> (Inr (saved_files, errs), fs')))"

text \<open>\<open>not contents\<close> on an optional list.\<close>

definition falsy :: "'a list option \<Rightarrow> bool" where
  "falsy xs = (xs = None \<or> xs = Some [])"

definition handle_image_upload ::
  "library \<Rightarrow> path \<Rightarrow> session \<Rightarrow> filesystem \<Rightarrow> string list option \<Rightarrow> string list option
   \<Rightarrow> UploadResponse \<times> filesystem" where
  "handle_image_upload lib base current_user fs contents filenames =
     (if \<not> is_authenticated current_user
      then (upload_error_response ''You must be logged in to upload images.'' [], fs)
      else if falsy contents \<or> falsy filenames then (empty_upload_response, fs)
      else
        (case process_uploaded_images lib base current_user fs (the contents) (the filenames) of
           (Inl e, fs') \<Rightarrow> (upload_error_response ''Upload failed'' [str e], fs')
         | (Inr (saved_files, errs), fs') \<Rightarrow>
             if saved_files = []
             then (upload_error_response ''Upload failed'' (or_else errs [''Unknown error occurred'']), fs')
             else
               let upload_type = (if errs \<noteq> [] then ''partial_success'' else ''success'')
               in (successful_upload_response upload_type saved_files errs, fs')))"



section \<open>Registration (auth/authentication.py)\<close>

text \<open>
  The user table is the list of its rows in insertion order; \<open>first_by_username\<close> is
  \<open>User.query.filter_by(username=username).first()\<close>. The password hash is a library
  function, taken as a parameter.
\<close>

record User =
  username :: string
  hashed_password :: string

definition first_by_username :: "User list \<Rightarrow> string \<Rightarrow> User option" where
  "first_by_username user_db name = find (\<lambda>u. username u = name) user_db"

definition register_user ::
  "(string \<Rightarrow> string) \<Rightarrow> User list \<Rightarrow> string \<Rightarrow> string \<Rightarrow> (bool \<times> string) \<times> User list" where
  "register_user generate_password_hash user_db name password =
     (if first_by_username user_db name \<noteq> None then ((False, ''Username already exists''), user_db)
      else
        let new_user = \<lparr>username = name, hashed_password = generate_password_hash password\<rparr>
        in ((True, ''Registration successful. You can now log in with your new account.''),
            user_db @ [new_user]))"

section \<open>Test doubles\<close>

text \<open>
  To run the model on concrete inputs the library parameter needs a value. As the
  repository's tests replace the file utilities by doubles (tests/test_helpers.py), the
  record below fixes one behaviour: the decoder knows the empty body and the body
  \<open>QUI=\<close> (the bytes \<open>AB\<close>) and rejects every other string for its padding; the
  imaging library accepts exactly the bytes \<open>AB\<close> as an image, saves it unchanged, and
  encodes \<open>uint8\<close> arrays only, as the TIFF magic number followed by the buffer.
\<close>

definition sample_library :: library where
  "sample_library =
     \<lparr>b64decode = (\<lambda>s. if s = [] then Inr []
                        else if s = ''QUI='' then Inr [0x41, 0x42]
                        else Inl (Raised BinasciiError ''Incorrect padding'')),
      image_open = (\<lambda>c. if c = [0x41, 0x42] then None
                         else Some (Raised OSError ''cannot identify image file'')),
      image_verify = (\<lambda>c. None),
      image_save = (\<lambda>c p. Inr c),
      image_save_leftover = (\<lambda>c p old. old),
      tiff_encode = (\<lambda>a. if dtype a = ''uint8'' then Inr ([0x49, 0x49, 0x2A, 0x00] @ buffer a)
                         else Inl (Raised TypeError ''Cannot handle this data type''))\<rparr>"

definition users_dir :: path where
  "users_dir = [''/'', ''data'', ''users'']"

text \<open>A file system where only alice's directory exists, and an empty one.\<close>

definition alice_fs :: filesystem where
  "alice_fs = \<lparr>dirs = {[''/'', ''data'', ''users'', ''alice'']}, files = Map.empty\<rparr>"

definition empty_fs :: filesystem where
  "empty_fs = \<lparr>dirs = {}, files = Map.empty\<rparr>"

section \<open>Unfolding the model on concrete inputs\<close>

lemmas run_defs =
  handle_image_upload_def is_authenticated_def falsy_def process_uploaded_images_def
  get_current_username_def get_user_directory_def users_dir_def alice_fs_def empty_fs_def
  joinpath_def Path_def startswith_def path_root_def exists_path_def is_file_def process_file_def
  validate_file_extension_def valid_extensions_def endswith_def lower_def lower_char_def
  upload_error_response_def or_else_def empty_upload_response_def successful_upload_response_def
  decode_base64_image_def validate_image_content_def save_image_from_bytes_def save_to_def mkdir_def
  parents_def path_name_def path_str_def after_comma_def sample_library_def Let_def

section \<open>The access guard's decision table\<close>

lemma guard_logout:
  "clicked c \<Longrightarrow> auth_guard_and_logout reg s p c = (logout s, RedirectTo ''/login'')"
  by (simp add: auth_guard_and_logout_def)

lemma guard_authenticated:
  "\<not> clicked c \<Longrightarrow> is_authenticated s \<Longrightarrow>
   auth_guard_and_logout reg s p c =
     (if get_location reg p = Some ''app'' then (s, no_update)
      else (s, RedirectTo ''/select-images''))"
  by (simp add: auth_guard_and_logout_def PROTECTED_LOCATIONS_def Let_def)

lemma guard_anonymous:
  "\<not> clicked c \<Longrightarrow> \<not> is_authenticated s \<Longrightarrow>
   auth_guard_and_logout reg s p c =
     (if get_location reg p = Some ''auth'' then (s, no_update)
      else (s, RedirectTo ''/login''))"
  by (simp add: auth_guard_and_logout_def AUTH_LOCATIONS_def Let_def)

text \<open>
  C1. The guard is a total function of (page registry, session, requested path, logout
  signal) that decides in this order: a logout click logs out and redirects to
  \<open>/login\<close> whatever the session was; otherwise an authenticated session on a page
  whose location is not \<open>app\<close> is sent to \<open>/select-images\<close>; otherwise an anonymous
  session on a page whose location is not \<open>auth\<close> is sent to \<open>/login\<close>; otherwise
  the page stays (\<open>no_update\<close>) and the session is untouched.
\<close>

theorem auth_guard_decision:
  "(clicked c \<longrightarrow>
      auth_guard_and_logout reg s p c = (logout s, RedirectTo ''/login'')
      \<and> \<not> is_authenticated (logout s))
   \<and> (\<not> clicked c \<and> is_authenticated s \<and> get_location reg p \<noteq> Some ''app'' \<longrightarrow>
      auth_guard_and_logout reg s p c = (s, RedirectTo ''/select-images''))
   \<and> (\<not> clicked c \<and> \<not> is_authenticated s \<and> get_location reg p \<noteq> Some ''auth'' \<longrightarrow>
      auth_guard_and_logout reg s p c = (s, RedirectTo ''/login''))
   \<and> (\<not> clicked c
        \<and> \<not> (is_authenticated s \<and> get_location reg p \<noteq> Some ''app'')
        \<and> \<not> (\<not> is_authenticated s \<and> get_location reg p \<noteq> Some ''auth'') \<longrightarrow>
      auth_guard_and_logout reg s p c = (s, no_update))"
proof -
  have out: "\<not> is_authenticated (logout s)"
    by (simp add: is_authenticated_def logout_def)
  show ?thesis
    using out guard_logout [of c reg s p] guard_authenticated [of c s reg p]
      guard_anonymous [of c s reg p]
    by (cases "clicked c"; cases "is_authenticated s") auto
qed

theorem auth_guard_decision_witness:
  "clicked (Some 1)
   \<and> auth_guard_and_logout test_registry (Some ''testuser'') ''/any'' (Some 1)
       = (None, RedirectTo ''/login'')
   \<and> auth_guard_and_logout test_registry (Some ''testuser'') ''/login'' None
       = (Some ''testuser'', RedirectTo ''/select-images'')
   \<and> auth_guard_and_logout test_registry None ''/select-images'' (Some 0)
       = (None, RedirectTo ''/login'')
   \<and> auth_guard_and_logout test_registry (Some ''testuser'') ''/select-images'' None
       = (Some ''testuser'', no_update)
   \<and> auth_guard_and_logout test_registry None ''/register'' None = (None, no_update)"
proof -
  have loc: "get_location test_registry ''/login'' = Some ''auth''"
    "get_location test_registry ''/select-images'' = Some ''app''"
    "get_location test_registry ''/register'' = Some ''auth''"
    by (simp_all add: get_location_def test_registry_def startswith_def)
  have c: "clicked (Some 1)" "\<not> clicked None" "\<not> clicked (Some 0)"
    by (simp_all add: clicked_def)
  have a: "is_authenticated (Some ''testuser'')" "\<not> is_authenticated None"
    by (simp_all add: is_authenticated_def)
  show ?thesis
    using loc c a
      auth_guard_decision [of "Some 1" test_registry "Some ''testuser''" "''/any''"]
      auth_guard_decision [of None test_registry "Some ''testuser''" "''/login''"]
      auth_guard_decision [of "Some 0" test_registry None "''/select-images''"]
      auth_guard_decision [of None test_registry "Some ''testuser''" "''/select-images''"]
      auth_guard_decision [of None test_registry None "''/register''"]
    by (simp add: logout_def)
qed

section \<open>The upload callback\<close>

text \<open>
  C10. An upload by a session that is not authenticated returns the error response
  with the message "You must be logged in to upload images." and empty lists of valid
  files and errors, and leaves the file system alone, whatever the contents and
  filenames are (absent and empty lists included): the authentication check comes
  before the no-files check, so the result is never the empty response.
\<close>

theorem unauthenticated_upload_rejected:
  "\<not> is_authenticated s \<Longrightarrow>
   handle_image_upload lib base s fs contents filenames =
     (\<lparr>type = ''error'', message = ''You must be logged in to upload images.'',
       valid_files = [], errors = []\<rparr>, fs)"
  by (simp add: handle_image_upload_def upload_error_response_def or_else_def)

theorem unauthenticated_upload_rejected_witness:
  "\<not> is_authenticated None
   \<and> handle_image_upload sample_library users_dir None alice_fs None None =
     (\<lparr>type = ''error'', message = ''You must be logged in to upload images.'',
       valid_files = [], errors = []\<rparr>, alice_fs)
   \<and> handle_image_upload sample_library users_dir None alice_fs (Some []) (Some []) =
     (\<lparr>type = ''error'', message = ''You must be logged in to upload images.'',
       valid_files = [], errors = []\<rparr>, alice_fs)
   \<and> type (fst (handle_image_upload sample_library users_dir None alice_fs (Some []) (Some [])))
       \<noteq> ''empty''"
proof -
  have anon: "\<not> is_authenticated None"
    by (simp add: is_authenticated_def)
  show ?thesis
    using anon
      unauthenticated_upload_rejected [OF anon, of sample_library users_dir alice_fs None None]
      unauthenticated_upload_rejected [OF anon, of sample_library users_dir alice_fs "Some []" "Some []"]
    by simp
qed

lemma handle_image_upload_cases:
  assumes "is_authenticated s"
  shows "handle_image_upload lib base s fs contents filenames =
     (if falsy contents \<or> falsy filenames then (empty_upload_response, fs)
      else case process_uploaded_images lib base s fs (the contents) (the filenames) of
           (Inl e, fs') \<Rightarrow> (upload_error_response ''Upload failed'' [str e], fs')
         | (Inr (saved_files, errs), fs') \<Rightarrow>
             if saved_files = []
             then (upload_error_response ''Upload failed'' (or_else errs [''Unknown error occurred'']), fs')
             else if errs \<noteq> [] then (successful_upload_response ''partial_success'' saved_files errs, fs')
             else (successful_upload_response ''success'' saved_files errs, fs'))"
  using assms by (simp add: handle_image_upload_def Let_def split: prod.splits sum.splits)

text \<open>
  C2. For an authenticated session the response kind is determined by its lists:
  \<open>success\<close> iff there are no errors and some valid file; \<open>partial_success\<close> iff
  both lists are nonempty; \<open>error\<close> iff no file is valid and both input lists were
  supplied nonempty; \<open>empty\<close> iff an input list was absent or empty.
\<close>

theorem upload_kind_invariant:
  assumes auth: "is_authenticated s"
    and run: "handle_image_upload lib base s fs contents filenames = (r, fs')"
  shows "(type r = ''success'' \<longleftrightarrow> errors r = [] \<and> valid_files r \<noteq> [])
       \<and> (type r = ''partial_success'' \<longleftrightarrow> valid_files r \<noteq> [] \<and> errors r \<noteq> [])
       \<and> (type r = ''error'' \<longleftrightarrow> valid_files r = [] \<and> \<not> (falsy contents \<or> falsy filenames))
       \<and> (type r = ''empty'' \<longleftrightarrow> falsy contents \<or> falsy filenames)"
proof (cases "falsy contents \<or> falsy filenames")
  case True
  then have "r = empty_upload_response"
    using run handle_image_upload_cases [OF auth, of lib base fs contents filenames] by simp
  then show ?thesis
    using True by (simp add: empty_upload_response_def)
next
  case False
  obtain res fs1 where p: "process_uploaded_images lib base s fs (the contents) (the filenames) = (res, fs1)"
    by (cases "process_uploaded_images lib base s fs (the contents) (the filenames)")
  show ?thesis
  proof (cases res)
    case (Inl e)
    then have "r = upload_error_response ''Upload failed'' [str e]"
      using run False p handle_image_upload_cases [OF auth, of lib base fs contents filenames] by simp
    then show ?thesis
      using False by (simp add: upload_error_response_def or_else_def)
  next
    case (Inr lists)
    obtain saved errs where l: "lists = (saved, errs)"
      by (cases lists)
    have r: "r = (if saved = []
             then upload_error_response ''Upload failed'' (or_else errs [''Unknown error occurred''])
             else if errs \<noteq> [] then successful_upload_response ''partial_success'' saved errs
             else successful_upload_response ''success'' saved errs)"
      using run False p Inr l handle_image_upload_cases [OF auth, of lib base fs contents filenames]
      by auto
    show ?thesis
      using False unfolding r
      by (simp add: upload_error_response_def successful_upload_response_def or_else_def)
  qed
qed

lemma partial_run:
  "handle_image_upload sample_library users_dir (Some ''alice'') alice_fs
       (Some [''d,QUI='', ''y'', ''d,'']) (Some [''x/../a.png'', ''b.png'', ''c.jpg''])
   = (\<lparr>type = ''partial_success'', message = ''Upload completed'', valid_files = [''a.png''],
        errors = [''b.png: Failed to decode base64 image: Input string does not contain a comma to split header and data.'',
                  ''c.jpg: Failed to decode base64 image: Decoded image content is empty.'']\<rparr>,
      \<lparr>dirs = {[''/'', ''data'', ''users'', ''alice''], [''/''], [''/'', ''data''], [''/'', ''data'', ''users''],
                [''/'', ''data'', ''users'', ''alice'', ''images'']},
        files = [[''/'', ''data'', ''users'', ''alice'', ''images'', ''a.png''] \<mapsto> [0x41, 0x42]]\<rparr>)"
  by (simp add: run_defs upt_rec) auto

theorem upload_kind_invariant_witness:
  "is_authenticated (Some ''alice'')
   \<and> type (fst (handle_image_upload sample_library users_dir (Some ''alice'') alice_fs
         (Some [''d,QUI='', ''y'', ''d,'']) (Some [''x/../a.png'', ''b.png'', ''c.jpg'']))) = ''partial_success''
   \<and> valid_files (fst (handle_image_upload sample_library users_dir (Some ''alice'') alice_fs
         (Some [''d,QUI='', ''y'', ''d,'']) (Some [''x/../a.png'', ''b.png'', ''c.jpg'']))) \<noteq> []
   \<and> errors (fst (handle_image_upload sample_library users_dir (Some ''alice'') alice_fs
         (Some [''d,QUI='', ''y'', ''d,'']) (Some [''x/../a.png'', ''b.png'', ''c.jpg'']))) \<noteq> []"
proof -
  have auth: "is_authenticated (Some ''alice'')"
    by (simp add: is_authenticated_def)
  show ?thesis
    using auth upload_kind_invariant [OF auth partial_run] partial_run by simp
qed

subsection \<open>Absent, empty and unequal input lists\<close>

lemma unequal_run:
  "handle_image_upload sample_library users_dir (Some ''alice'') alice_fs
       (Some [''x'', ''y'']) (Some [''a.txt''])
   = (\<lparr>type = ''error'', message = ''Upload failed'', valid_files = [],
        errors = [''a.txt: Unsupported file type: a.txt'']\<rparr>, alice_fs)"
  by (simp add: run_defs)

text \<open>
  Two contents and one filename, submitted by an authenticated user whose directory
  exists: the first pair is processed (its extension is refused), so the response is of
  kind \<open>error\<close>, not \<open>empty\<close>.
\<close>

theorem unequal_lengths_counterexample:
  "length [''x'', ''y''] \<noteq> length [''a.txt'']
   \<and> is_authenticated (Some ''alice'')
   \<and> fst (handle_image_upload sample_library users_dir (Some ''alice'') alice_fs
         (Some [''x'', ''y'']) (Some [''a.txt''])) \<noteq> empty_upload_response
   \<and> type (fst (handle_image_upload sample_library users_dir (Some ''alice'') alice_fs
         (Some [''x'', ''y'']) (Some [''a.txt'']))) = ''error''
   \<and> errors (fst (handle_image_upload sample_library users_dir (Some ''alice'') alice_fs
         (Some [''x'', ''y'']) (Some [''a.txt'']))) = [''a.txt: Unsupported file type: a.txt'']"
  by (simp add: unequal_run empty_upload_response_def is_authenticated_def)

lemma find_append_None:
  "find P xs = None \<Longrightarrow> find P (xs @ ys) = find P ys"
  by (induction xs) (simp_all split: if_splits)

lemma handle_image_upload_cong:
  assumes "\<not> falsy (Some a)" "\<not> falsy (Some b)" "\<not> falsy (Some a')" "\<not> falsy (Some b')"
    and "process_uploaded_images lib base s fs a b = process_uploaded_images lib base s fs a' b'"
  shows "handle_image_upload lib base s fs (Some a) (Some b) =
         handle_image_upload lib base s fs (Some a') (Some b')"
  using assms by (simp add: handle_image_upload_def)

lemma handle_image_upload_zip:
  assumes "cs \<noteq> []" and "fns \<noteq> []"
  shows "handle_image_upload lib base s fs (Some cs) (Some fns) =
         handle_image_upload lib base s fs
           (Some (take (min (length cs) (length fns)) cs))
           (Some (take (min (length cs) (length fns)) fns))"
proof -
  let ?n = "min (length cs) (length fns)"
  have z: "zip (take ?n cs) (take ?n fns) = zip cs fns"
    by (simp add: take_zip [symmetric])
  have p: "process_uploaded_images lib base s fs cs fns
           = process_uploaded_images lib base s fs (take ?n cs) (take ?n fns)"
    unfolding process_uploaded_images_def z ..
  have pos: "0 < ?n"
    using assms by simp
  have given: "\<not> falsy (Some cs)" "\<not> falsy (Some fns)"
    using assms by (simp_all add: falsy_def)
  have cut: "\<not> falsy (Some (take ?n cs))" "\<not> falsy (Some (take ?n fns))"
    using assms pos by (simp_all add: falsy_def)
  show ?thesis
    by (rule handle_image_upload_cong [OF given cut p])
qed

text \<open>
  C4 (amended). For an authenticated session, when the contents or the filenames are
  absent or empty the batch is "no files": the response is the empty one, with no valid
  files and no errors, and the file system is unchanged. Lists of unequal length that
  are both nonempty are not "no files": they are paired up to the shorter one and
  processed like the lists cut to that length.
\<close>

theorem no_files_upload:
  assumes "is_authenticated s"
  shows "(falsy contents \<or> falsy filenames \<longrightarrow>
            handle_image_upload lib base s fs contents filenames =
              (\<lparr>type = ''empty'', message = ''No files uploaded'', valid_files = [], errors = []\<rparr>, fs))
       \<and> (cs \<noteq> [] \<and> fns \<noteq> [] \<longrightarrow>
            handle_image_upload lib base s fs (Some cs) (Some fns) =
            handle_image_upload lib base s fs
              (Some (take (min (length cs) (length fns)) cs))
              (Some (take (min (length cs) (length fns)) fns)))"
proof -
  have none: "falsy contents \<or> falsy filenames \<Longrightarrow>
      handle_image_upload lib base s fs contents filenames =
        (\<lparr>type = ''empty'', message = ''No files uploaded'', valid_files = [], errors = []\<rparr>, fs)"
    using assms by (simp add: handle_image_upload_def empty_upload_response_def)
  show ?thesis
    using none handle_image_upload_zip [of cs fns lib base s fs] by blast
qed

theorem no_files_upload_witness:
  "is_authenticated (Some ''alice'')
   \<and> handle_image_upload sample_library users_dir (Some ''alice'') alice_fs None (Some [''test.png''])
       = (\<lparr>type = ''empty'', message = ''No files uploaded'', valid_files = [], errors = []\<rparr>, alice_fs)
   \<and> handle_image_upload sample_library users_dir (Some ''alice'') alice_fs (Some []) (Some [])
       = (\<lparr>type = ''empty'', message = ''No files uploaded'', valid_files = [], errors = []\<rparr>, alice_fs)
   \<and> handle_image_upload sample_library users_dir (Some ''alice'') alice_fs (Some [''x'', ''y'']) (Some [''a.txt''])
       = handle_image_upload sample_library users_dir (Some ''alice'') alice_fs (Some [''x'']) (Some [''a.txt''])"
proof -
  have auth: "is_authenticated (Some ''alice'')"
    by (simp add: is_authenticated_def)
  show ?thesis
    using auth
      no_files_upload [OF auth, of None "Some [''test.png'']" sample_library users_dir alice_fs "[''x'', ''y'']" "[''a.txt'']"]
      no_files_upload [OF auth, of "Some []" "Some []" sample_library users_dir alice_fs "[''x'', ''y'']" "[''a.txt'']"]
    by (simp add: falsy_def)
qed

section \<open>Registration\<close>

text \<open>
  C9. Registering a username that is not in the user table succeeds with the message
  "Registration successful. You can now log in with your new account." and adds the
  user; registering the same username again right after, with any password, fails with
  "Username already exists" and leaves the table as it was.
\<close>

theorem register_then_duplicate:
  assumes "first_by_username user_db name = None"
  shows "register_user h user_db name password =
           ((True, ''Registration successful. You can now log in with your new account.''),
            user_db @ [\<lparr>username = name, hashed_password = h password\<rparr>])
       \<and> register_user h (snd (register_user h user_db name password)) name other =
           ((False, ''Username already exists''), snd (register_user h user_db name password))"
proof -
  have first: "register_user h user_db name password =
           ((True, ''Registration successful. You can now log in with your new account.''),
            user_db @ [\<lparr>username = name, hashed_password = h password\<rparr>])"
    using assms by (simp add: register_user_def)
  have found: "first_by_username (user_db @ [\<lparr>username = name, hashed_password = h password\<rparr>]) name
      = Some \<lparr>username = name, hashed_password = h password\<rparr>"
    using assms by (simp add: first_by_username_def find_append_None)
  show ?thesis
    unfolding first using found by (simp add: register_user_def)
qed

theorem register_then_duplicate_witness:
  "first_by_username [] ''alice'' = None
   \<and> register_user (\<lambda>p. ''hash:'' @ p) [] ''alice'' ''pw123'' =
        ((True, ''Registration successful. You can now log in with your new account.''),
         [\<lparr>username = ''alice'', hashed_password = ''hash:pw123''\<rparr>])
   \<and> register_user (\<lambda>p. ''hash:'' @ p) [\<lparr>username = ''alice'', hashed_password = ''hash:pw123''\<rparr>]
        ''alice'' ''other'' =
        ((False, ''Username already exists''), [\<lparr>username = ''alice'', hashed_password = ''hash:pw123''\<rparr>])"
proof -
  have fresh: "first_by_username [] ''alice'' = None"
    by (simp add: first_by_username_def)
  note run = register_then_duplicate [OF fresh, of "\<lambda>p. ''hash:'' @ p" "''pw123''" "''other''"]
  have one: "register_user (\<lambda>p. ''hash:'' @ p) [] ''alice'' ''pw123'' =
        ((True, ''Registration successful. You can now log in with your new account.''),
         [\<lparr>username = ''alice'', hashed_password = ''hash:pw123''\<rparr>])"
    using run by simp
  have two: "register_user (\<lambda>p. ''hash:'' @ p) [\<lparr>username = ''alice'', hashed_password = ''hash:pw123''\<rparr>]
        ''alice'' ''other'' =
        ((False, ''Username already exists''), [\<lparr>username = ''alice'', hashed_password = ''hash:pw123''\<rparr>])"
    using run unfolding one by simp
  show ?thesis
    using fresh one two by simp
qed

section \<open>Decoding\<close>

lemma after_comma_first:
  "CHR '','' \<notin> set header \<Longrightarrow> after_comma (header @ CHR '','' # body) = body"
  unfolding after_comma_def by (induction header) auto

lemma decode_no_comma:
  "CHR '','' \<notin> set content_str \<Longrightarrow>
   decode_base64_image lib content_str =
     Inl (Raised ValueError
       ''Failed to decode base64 image: Input string does not contain a comma to split header and data.'')"
  by (simp add: decode_base64_image_def)

lemma decode_with_comma:
  "CHR '','' \<notin> set header \<Longrightarrow>
   decode_base64_image lib (header @ CHR '','' # body) =
     (case b64decode lib body of
        Inl e \<Rightarrow> if is_ValueError (exc_class e)
                 then Inl (Raised ValueError (''Failed to decode base64 image: '' @ str e))
                 else Inl e
      | Inr decoded \<Rightarrow>
          if decoded = []
          then Inl (Raised ValueError ''Failed to decode base64 image: Decoded image content is empty.'')
          else Inr decoded)"
  by (simp add: decode_base64_image_def after_comma_first split: sum.splits)

lemma process_loop_decode_error:
  assumes "validate_file_extension filename = Inr ()"
    and "decode_base64_image lib content = Inl e"
  shows "process_loop lib image_dir [(content, filename)] saved errs fs
         = (saved, errs @ [filename @ '': '' @ str e], fs)"
  using assms by (simp add: process_file_def)

text \<open>
  C5. Decoding an encoded payload fails when the string has no comma, and fails when
  the body after the first comma decodes to no bytes (and when the decoder rejects the
  body); for a file whose extension is supported, so that decoding is reached, the
  entry appended to the errors is "<filename>: Failed to decode base64 image: <detail>".
  When decoding succeeds, the bytes returned are the decoder's result on the part
  after the first comma, and they are not empty.
\<close>

theorem decode_failures_and_success:
  "(CHR '','' \<notin> set content_str \<longrightarrow>
      decode_base64_image lib content_str =
        Inl (Raised ValueError
          ''Failed to decode base64 image: Input string does not contain a comma to split header and data.'')
      \<and> (validate_file_extension filename = Inr () \<longrightarrow>
           process_loop lib image_dir [(content_str, filename)] saved errs fs =
             (saved,
              errs @ [filename @ '': Failed to decode base64 image: Input string does not contain a comma to split header and data.''],
              fs)))
   \<and> (CHR '','' \<notin> set header \<and> b64decode lib body = Inr [] \<longrightarrow>
      decode_base64_image lib (header @ CHR '','' # body) =
        Inl (Raised ValueError ''Failed to decode base64 image: Decoded image content is empty.'')
      \<and> (validate_file_extension filename = Inr () \<longrightarrow>
           process_loop lib image_dir [(header @ CHR '','' # body, filename)] saved errs fs =
             (saved, errs @ [filename @ '': Failed to decode base64 image: Decoded image content is empty.''], fs)))
   \<and> (CHR '','' \<notin> set header \<and> b64decode lib body = Inl e \<and> is_ValueError (exc_class e) \<longrightarrow>
      decode_base64_image lib (header @ CHR '','' # body) =
        Inl (Raised ValueError (''Failed to decode base64 image: '' @ str e))
      \<and> (validate_file_extension filename = Inr () \<longrightarrow>
           process_loop lib image_dir [(header @ CHR '','' # body, filename)] saved errs fs =
             (saved, errs @ [filename @ '': Failed to decode base64 image: '' @ str e], fs)))
   \<and> (CHR '','' \<notin> set header \<and> b64decode lib body = Inr decoded \<and> decoded \<noteq> [] \<longrightarrow>
      decode_base64_image lib (header @ CHR '','' # body) = Inr decoded)
   \<and> (CHR '','' \<notin> set header \<and> decode_base64_image lib (header @ CHR '','' # body) = Inr decoded \<longrightarrow>
      b64decode lib body = Inr decoded \<and> decoded \<noteq> [])"
proof -
  have entry: "process_loop lib image_dir [(c, filename)] saved errs fs
        = (saved, errs @ [filename @ '': '' @ m], fs)"
    if "validate_file_extension filename = Inr ()" "decode_base64_image lib c = Inl (Raised ValueError m)" for c m
    using process_loop_decode_error [OF that, of image_dir saved errs fs] by simp
  have a: "decode_base64_image lib content_str =
        Inl (Raised ValueError
          ''Failed to decode base64 image: Input string does not contain a comma to split header and data.'')"
    if "CHR '','' \<notin> set content_str"
    using that by (rule decode_no_comma)
  have b: "decode_base64_image lib (header @ CHR '','' # body) =
        Inl (Raised ValueError ''Failed to decode base64 image: Decoded image content is empty.'')"
    if "CHR '','' \<notin> set header" "b64decode lib body = Inr []"
    using that by (simp add: decode_with_comma)
  have c: "decode_base64_image lib (header @ CHR '','' # body) =
        Inl (Raised ValueError (''Failed to decode base64 image: '' @ str e))"
    if "CHR '','' \<notin> set header" "b64decode lib body = Inl e" "is_ValueError (exc_class e)"
    using that by (simp add: decode_with_comma)
  have d: "decode_base64_image lib (header @ CHR '','' # body) = Inr decoded"
    if "CHR '','' \<notin> set header" "b64decode lib body = Inr decoded" "decoded \<noteq> []"
    using that by (simp add: decode_with_comma)
  have e: "b64decode lib body = Inr decoded \<and> decoded \<noteq> []"
    if "CHR '','' \<notin> set header" "decode_base64_image lib (header @ CHR '','' # body) = Inr decoded"
    using that by (simp add: decode_with_comma split: sum.splits if_splits)
  show ?thesis
    using a b c d e entry [OF _ a] entry [OF _ b] entry [OF _ c]
    by (simp only: append_Cons append_Nil) blast
qed

theorem decode_failures_and_success_witness:
  "validate_file_extension ''c.jpg'' = Inr ()
   \<and> CHR '','' \<notin> set ''data:image/png;base64''
   \<and> decode_base64_image sample_library ''nocomma'' =
        Inl (Raised ValueError
          ''Failed to decode base64 image: Input string does not contain a comma to split header and data.'')
   \<and> process_loop sample_library [''images''] [(''nocomma'', ''c.jpg'')] [] [] empty_fs =
        ([], [''c.jpg: Failed to decode base64 image: Input string does not contain a comma to split header and data.''],
         empty_fs)
   \<and> process_loop sample_library [''images''] [(''data:image/png;base64,'', ''c.jpg'')] [] [] empty_fs =
        ([], [''c.jpg: Failed to decode base64 image: Decoded image content is empty.''], empty_fs)
   \<and> decode_base64_image sample_library ''data:image/png;base64,QQ'' =
        Inl (Raised ValueError ''Failed to decode base64 image: Incorrect padding'')
   \<and> decode_base64_image sample_library ''data:image/png;base64,QUI='' = Inr [0x41, 0x42]"
proof -
  have ext: "validate_file_extension ''c.jpg'' = Inr ()"
    by (simp add: run_defs)
  have hdr: "CHR '','' \<notin> set ''data:image/png;base64''" "CHR '','' \<notin> set ''nocomma''"
    by simp_all
  have lib: "b64decode sample_library [] = Inr []"
    "b64decode sample_library ''QQ'' = Inl (Raised BinasciiError ''Incorrect padding'')"
    "b64decode sample_library ''QUI='' = Inr [0x41, 0x42]"
    by (simp_all add: sample_library_def)
  note empty_body = decode_failures_and_success
      [of "''nocomma''" sample_library "''c.jpg''" "[''images'']" "[]" "[]" empty_fs
        "''data:image/png;base64''" "[]" "Raised BinasciiError ''Incorrect padding''" "[0x41, 0x42]"]
  note bad_body = decode_failures_and_success
      [of "''nocomma''" sample_library "''c.jpg''" "[''images'']" "[]" "[]" empty_fs
        "''data:image/png;base64''" "''QQ''" "Raised BinasciiError ''Incorrect padding''" "[0x41, 0x42]"]
  note good_body = decode_failures_and_success
      [of "''nocomma''" sample_library "''c.jpg''" "[''images'']" "[]" "[]" empty_fs
        "''data:image/png;base64''" "''QUI=''" "Raised BinasciiError ''Incorrect padding''" "[0x41, 0x42]"]
  have w1: "decode_base64_image sample_library ''nocomma'' =
        Inl (Raised ValueError
          ''Failed to decode base64 image: Input string does not contain a comma to split header and data.'')"
    and w2: "process_loop sample_library [''images''] [(''nocomma'', ''c.jpg'')] [] [] empty_fs =
        ([], [''c.jpg: Failed to decode base64 image: Input string does not contain a comma to split header and data.''],
         empty_fs)"
    and w3: "process_loop sample_library [''images''] [(''data:image/png;base64,'', ''c.jpg'')] [] [] empty_fs =
        ([], [''c.jpg: Failed to decode base64 image: Decoded image content is empty.''], empty_fs)"
    using empty_body ext hdr lib(1) by (simp_all del: process_loop.simps)
  have w4: "decode_base64_image sample_library ''data:image/png;base64,QQ'' =
        Inl (Raised ValueError ''Failed to decode base64 image: Incorrect padding'')"
    using bad_body hdr lib(2) by (simp del: process_loop.simps)
  have w5: "decode_base64_image sample_library ''data:image/png;base64,QUI='' = Inr [0x41, 0x42]"
    using good_body hdr lib(3) by (simp del: process_loop.simps)
  show ?thesis
    using ext hdr(1) w1 w2 w3 w4 w5 by (simp del: process_loop.simps)
qed

section \<open>The archive\<close>

lemma write_entries_names:
  "write_entries lib idx imgs zipf = Inr z \<Longrightarrow>
   map fst z = map fst zipf @ map (\<lambda>i. str_nat i @ ''.tif'') [idx..<idx + length imgs]"
proof (induction imgs arbitrary: idx zipf)
  case Nil
  then show ?case by simp
next
  case (Cons img rest)
  then obtain tiff_bytes where enc: "get_tiff_bytes lib img = Inr tiff_bytes"
    and rec: "write_entries lib (Suc idx) rest (zipf @ [(str_nat idx @ ''.tif'', tiff_bytes)]) = Inr z"
    by (auto simp: Let_def simp del: str_nat.simps split: sum.splits)
  have "[idx..<idx + length (img # rest)] = idx # [Suc idx..<Suc idx + length rest]"
    by (simp add: upt_rec)
  then show ?case
    using Cons.IH [OF rec] by (simp del: str_nat.simps)
qed

lemma write_entries_data:
  "write_entries lib idx imgs zipf = Inr z \<Longrightarrow>
   map (\<lambda>entry. Inr (snd entry)) z
     = map (\<lambda>entry. Inr (snd entry)) zipf @ map (get_tiff_bytes lib) imgs"
proof (induction imgs arbitrary: idx zipf)
  case Nil
  then show ?case by simp
next
  case (Cons img rest)
  then obtain tiff_bytes where enc: "get_tiff_bytes lib img = Inr tiff_bytes"
    and rec: "write_entries lib (Suc idx) rest (zipf @ [(str_nat idx @ ''.tif'', tiff_bytes)]) = Inr z"
    by (auto simp: Let_def simp del: str_nat.simps split: sum.splits)
  show ?case
    using Cons.IH [OF rec] enc by (simp del: str_nat.simps)
qed

lemma str_nat_0: "str_nat 0 = ''0''"
  by code_simp

lemma str_nat_1: "str_nat (Suc 0) = ''1''"
  by code_simp

lemma get_tiff_bytes_ok: "tiff_encode lib a = Inr b \<Longrightarrow> get_tiff_bytes lib a = Inr b"
  by (simp add: get_tiff_bytes_def)

lemma get_tiff_bytes_failed:
  "tiff_encode lib a = Inl e \<Longrightarrow>
   get_tiff_bytes lib a =
     Inl (Raised OSError (''Failed to convert image array to TIFF image bytes: '' @ str e))"
  by (simp add: get_tiff_bytes_def)

text \<open>
  Not every two-element input yields an archive: when the imaging library cannot
  encode an array (here one of complex numbers), the build raises and returns no
  archive at all.
\<close>

theorem archive_not_for_every_input_counterexample:
  "create_tif_zip_archive sample_library
      [\<lparr>shape = [2, 2], dtype = ''complex128'', buffer = replicate 64 0\<rparr>,
       \<lparr>shape = [2, 3], dtype = ''uint8'', buffer = [1, 2, 3, 4, 5, 6]\<rparr>]
   = Inl (Raised OSError
       ''Failed to create TIFF zip archive: Failed to convert image array to TIFF image bytes: Cannot handle this data type'')"
  by (simp add: create_tif_zip_archive_def get_tiff_bytes_def sample_library_def)

text \<open>
  C7 (amended). For every two-element input [A, B] whose arrays the imaging library
  encodes, the archive has exactly the two entries \<open>0.tif\<close> and \<open>1.tif\<close>, in this
  order, holding the TIFF encodings of A and B; when an encoding fails the build fails
  with "Failed to create TIFF zip archive: ..." and returns no archive. In general the
  entries of a built archive are named \<open><index>.tif\<close> in input order from index 0 and
  hold the encodings \<open>get_tiff_bytes\<close> returns. The empty input gives an archive
  with no entries, not an error.
\<close>

theorem tif_zip_archive_entries:
  "(tiff_encode lib A = Inr a \<and> tiff_encode lib B = Inr b \<longrightarrow>
      create_tif_zip_archive lib [A, B] = Inr [(''0.tif'', a), (''1.tif'', b)])
   \<and> (tiff_encode lib A = Inl e \<longrightarrow>
      create_tif_zip_archive lib [A, B] = Inl (Raised OSError
        (''Failed to create TIFF zip archive: Failed to convert image array to TIFF image bytes: '' @ str e)))
   \<and> (tiff_encode lib A = Inr a \<and> tiff_encode lib B = Inl e \<longrightarrow>
      create_tif_zip_archive lib [A, B] = Inl (Raised OSError
        (''Failed to create TIFF zip archive: Failed to convert image array to TIFF image bytes: '' @ str e)))
   \<and> (create_tif_zip_archive lib imgs = Inr z \<longrightarrow>
      map fst z = map (\<lambda>i. str_nat i @ ''.tif'') [0..<length imgs]
      \<and> map (\<lambda>entry. Inr (snd entry)) z = map (get_tiff_bytes lib) imgs)
   \<and> create_tif_zip_archive lib [] = Inr []"
proof -
  have two: "tiff_encode lib A = Inr a \<Longrightarrow> tiff_encode lib B = Inr b \<Longrightarrow>
      create_tif_zip_archive lib [A, B] = Inr [(''0.tif'', a), (''1.tif'', b)]"
    by (simp add: create_tif_zip_archive_def get_tiff_bytes_ok str_nat_0 str_nat_1 del: str_nat.simps)
  have first: "tiff_encode lib A = Inl e \<Longrightarrow>
      create_tif_zip_archive lib [A, B] = Inl (Raised OSError
        (''Failed to create TIFF zip archive: Failed to convert image array to TIFF image bytes: '' @ str e))"
    by (simp add: create_tif_zip_archive_def get_tiff_bytes_failed del: str_nat.simps)
  have second: "tiff_encode lib A = Inr a \<Longrightarrow> tiff_encode lib B = Inl e \<Longrightarrow>
      create_tif_zip_archive lib [A, B] = Inl (Raised OSError
        (''Failed to create TIFF zip archive: Failed to convert image array to TIFF image bytes: '' @ str e))"
    by (simp add: create_tif_zip_archive_def get_tiff_bytes_failed get_tiff_bytes_ok del: str_nat.simps)
  have all: "create_tif_zip_archive lib imgs = Inr z \<Longrightarrow>
      map fst z = map (\<lambda>i. str_nat i @ ''.tif'') [0..<length imgs]
      \<and> map (\<lambda>entry. Inr (snd entry)) z = map (get_tiff_bytes lib) imgs"
    using write_entries_names [of lib 0 imgs "[]" z] write_entries_data [of lib 0 imgs "[]" z]
    by (simp add: create_tif_zip_archive_def del: str_nat.simps split: sum.splits)
  have none: "create_tif_zip_archive lib [] = Inr []"
    by (simp add: create_tif_zip_archive_def)
  show ?thesis
    using two first second all none by blast
qed

theorem tif_zip_archive_entries_witness:
  "create_tif_zip_archive sample_library
      [\<lparr>shape = [3], dtype = ''uint8'', buffer = [1, 2, 3]\<rparr>,
       \<lparr>shape = [3], dtype = ''uint8'', buffer = [4, 5, 6]\<rparr>]
     = Inr [(''0.tif'', [0x49, 0x49, 0x2A, 0x00, 1, 2, 3]), (''1.tif'', [0x49, 0x49, 0x2A, 0x00, 4, 5, 6])]
   \<and> create_tif_zip_archive sample_library
      [\<lparr>shape = [2, 2], dtype = ''complex128'', buffer = replicate 64 0\<rparr>,
       \<lparr>shape = [3], dtype = ''uint8'', buffer = [4, 5, 6]\<rparr>]
     = Inl (Raised OSError
       ''Failed to create TIFF zip archive: Failed to convert image array to TIFF image bytes: Cannot handle this data type'')
   \<and> create_tif_zip_archive sample_library [] = Inr []"
proof -
  let ?A = "\<lparr>shape = [3], dtype = ''uint8'', buffer = [1, 2, 3]\<rparr>"
  let ?B = "\<lparr>shape = [3], dtype = ''uint8'', buffer = [4, 5, 6]\<rparr>"
  let ?C = "\<lparr>shape = [2, 2], dtype = ''complex128'', buffer = replicate 64 0\<rparr>"
  have enc: "tiff_encode sample_library ?A = Inr [0x49, 0x49, 0x2A, 0x00, 1, 2, 3]"
    "tiff_encode sample_library ?B = Inr [0x49, 0x49, 0x2A, 0x00, 4, 5, 6]"
    "tiff_encode sample_library ?C = Inl (Raised TypeError ''Cannot handle this data type'')"
    by (simp_all add: sample_library_def)
  show ?thesis
    using enc [simplified]
      tif_zip_archive_entries [of sample_library ?A "[0x49, 0x49, 0x2A, 0x00, 1, 2, 3]" ?B
        "[0x49, 0x49, 0x2A, 0x00, 4, 5, 6]" "Raised TypeError ''Cannot handle this data type''" "[]" "[]"]
      tif_zip_archive_entries [of sample_library ?C "[]" ?B
        "[0x49, 0x49, 0x2A, 0x00, 4, 5, 6]" "Raised TypeError ''Cannot handle this data type''" "[]" "[]"]
    by simp
qed

section \<open>The user directory\<close>

lemma mkdir_ok:
  "mkdir fs p = Inr fs' \<Longrightarrow>
   p \<in> dirs fs' \<and> files fs' = files fs \<and> dirs fs' = dirs fs \<union> set (parents p) \<union> {p}"
  by (auto simp: mkdir_def split: if_splits)

lemma mkdir_again: "mkdir fs p = Inr fs' \<Longrightarrow> mkdir fs' p = Inr fs'"
  by (auto simp: mkdir_def is_file_def list_ex_iff split: if_splits)

text \<open>
  C8 (amended). For every username, \<open>get_user_directory\<close> returns the path
  <base>/<username> when it exists and fails with "User directory does not exist:
  <path>" when it does not; it creates nothing. The directory is created by
  \<open>create_user_directory\<close> (called on a successful login): after it has succeeded
  the directory is there, no file has changed, \<open>get_user_directory\<close> succeeds, and
  creating again changes nothing.
\<close>

theorem user_directory_resolution:
  "(exists_path fs (joinpath base u) \<longrightarrow>
      get_user_directory base fs u = Inr (joinpath base u))
   \<and> (\<not> exists_path fs (joinpath base u) \<longrightarrow>
      get_user_directory base fs u =
        Inl (Raised FileNotFoundError (''User directory does not exist: '' @ path_str (joinpath base u))))
   \<and> (create_user_directory base fs u = Inr fs' \<longrightarrow>
      joinpath base u \<in> dirs fs' \<and> dirs fs \<subseteq> dirs fs' \<and> files fs' = files fs
      \<and> get_user_directory base fs' u = Inr (joinpath base u)
      \<and> create_user_directory base fs' u = Inr fs')"
proof -
  have made: "create_user_directory base fs u = Inr fs' \<Longrightarrow> mkdir fs (joinpath base u) = Inr fs'"
    by (simp add: create_user_directory_def Let_def split: sum.splits)
  have again: "mkdir fs' (joinpath base u) = Inr fs' \<Longrightarrow> create_user_directory base fs' u = Inr fs'"
    by (simp add: create_user_directory_def Let_def)
  have get: "joinpath base u \<in> dirs fs' \<Longrightarrow> get_user_directory base fs' u = Inr (joinpath base u)"
    by (simp add: get_user_directory_def exists_path_def Let_def)
  show ?thesis
    using made again get mkdir_ok [of fs "joinpath base u" fs'] mkdir_again [of fs "joinpath base u" fs']
    by (auto simp: get_user_directory_def Let_def)
qed

text \<open>
  On a file system without alice's directory the lookup fails; it does not create the
  directory.
\<close>

theorem user_directory_absent_counterexample:
  "\<not> exists_path empty_fs (joinpath users_dir ''alice'')
   \<and> get_user_directory users_dir empty_fs ''alice'' =
       Inl (Raised FileNotFoundError ''User directory does not exist: /data/users/alice'')"
  by (simp add: run_defs)

theorem user_directory_resolution_witness:
  "get_user_directory users_dir alice_fs ''alice'' = Inr [''/'', ''data'', ''users'', ''alice'']
   \<and> get_user_directory users_dir empty_fs ''bob'' =
       Inl (Raised FileNotFoundError ''User directory does not exist: /data/users/bob'')
   \<and> create_user_directory users_dir empty_fs ''bob'' =
       Inr \<lparr>dirs = {[''/''], [''/'', ''data''], [''/'', ''data'', ''users''], [''/'', ''data'', ''users'', ''bob'']},
            files = Map.empty\<rparr>
   \<and> get_user_directory users_dir
        \<lparr>dirs = {[''/''], [''/'', ''data''], [''/'', ''data'', ''users''], [''/'', ''data'', ''users'', ''bob'']},
          files = Map.empty\<rparr> ''bob'' = Inr [''/'', ''data'', ''users'', ''bob'']"
proof -
  let ?fs = "\<lparr>dirs = {[''/''], [''/'', ''data''], [''/'', ''data'', ''users''], [''/'', ''data'', ''users'', ''bob'']},
          files = Map.empty\<rparr>"
  have p: "joinpath users_dir ''alice'' = [''/'', ''data'', ''users'', ''alice'']"
    "joinpath users_dir ''bob'' = [''/'', ''data'', ''users'', ''bob'']"
    by (simp_all add: run_defs)
  have e: "exists_path alice_fs [''/'', ''data'', ''users'', ''alice'']"
    "\<not> exists_path empty_fs [''/'', ''data'', ''users'', ''bob'']"
    by (simp_all add: run_defs)
  have s: "path_str [''/'', ''data'', ''users'', ''bob''] = ''/data/users/bob''"
    by (simp add: run_defs)
  have c: "create_user_directory users_dir empty_fs ''bob'' = Inr ?fs"
    by (simp add: create_user_directory_def run_defs upt_rec) auto
  show ?thesis
    using p e s c
      user_directory_resolution [of alice_fs users_dir "''alice''" alice_fs]
      user_directory_resolution [of empty_fs users_dir "''bob''" ?fs]
    by (simp add: empty_fs_def)
qed

section \<open>Basenames\<close>

lemma split_on_not_Nil: "split_on sep s \<noteq> []"
  by (induction s) (auto split: list.splits)

lemma split_on_no_sep: "x \<in> set (split_on sep s) \<Longrightarrow> sep \<notin> set x"
  by (induction s arbitrary: x) (auto split: if_splits list.splits)

lemma split_on_plain: "sep \<notin> set s \<Longrightarrow> split_on sep s = [s]"
  by (induction s) auto

lemma split_on_append:
  "sep \<notin> set e \<Longrightarrow>
   split_on sep (a @ e) = butlast (split_on sep a) @ [last (split_on sep a) @ e]"
proof (induction a)
  case Nil
  then show ?case by (simp add: split_on_plain)
next
  case (Cons c a)
  then show ?case
    using split_on_not_Nil [of sep a] split_on_not_Nil [of sep "a @ e"]
    by (cases "split_on sep a") (auto split: list.splits)
qed

lemma startswith_sep: "startswith x ''/'' \<Longrightarrow> CHR ''/'' \<in> set x"
  by (cases x) (auto simp: startswith_def)

lemma path_root_cases: "path_root s = [] \<or> path_root s = [''/''] \<or> path_root s = [''//'']"
  by (simp add: path_root_def)

lemma path_name_no_sep: "CHR ''/'' \<notin> set (path_name p)" if "\<forall>x \<in> set p. CHR ''/'' \<in> set x \<longrightarrow> startswith x ''/''"
  using that by (auto simp: path_name_def)

lemma Path_parts: "x \<in> set (Path s) \<Longrightarrow> CHR ''/'' \<in> set x \<Longrightarrow> startswith x ''/''"
  using path_root_cases [of s] split_on_no_sep [of x "CHR ''/''" s]
  by (auto simp: Path_def startswith_def)

lemma basename_no_sep: "CHR ''/'' \<notin> set (path_name (Path filename))"
  by (rule path_name_no_sep) (auto dest: Path_parts)

lemma basename_suffix:
  assumes "CHR ''/'' \<notin> set e" and "2 \<le> length e"
  shows "path_name (Path (a @ e)) = last (split_on CHR ''/'' a) @ e"
proof -
  let ?x = "last (split_on CHR ''/'' a) @ e"
  have x: "?x \<noteq> []" "?x \<noteq> ''.''" "\<not> startswith ?x ''/''"
    using assms split_on_no_sep [of "last (split_on CHR ''/'' a)" "CHR ''/''" a] split_on_not_Nil [of "CHR ''/''" a]
      startswith_sep [of ?x]
    by (auto simp: append_eq_Cons_conv)
  have "Path (a @ e) = (path_root (a @ e) @ filter (\<lambda>x. x \<noteq> [] \<and> x \<noteq> ''.'') (butlast (split_on CHR ''/'' a))) @ [?x]"
    using x assms by (simp add: Path_def split_on_append)
  then show ?thesis
    using x by (simp add: path_name_def del: append_assoc)
qed

lemma lower_char_slash: "lower_char CHR ''/'' = CHR ''/''"
  by (simp add: lower_char_def)

lemma lower_no_sep: "CHR ''/'' \<notin> set (lower e) \<Longrightarrow> CHR ''/'' \<notin> set e"
  using lower_char_slash by (force simp: lower_def)

lemma path_root_plain: "CHR ''/'' \<notin> set n \<Longrightarrow> path_root n = []"
  by (cases n) (auto simp: path_root_def startswith_def)

lemma joinpath_plain:
  assumes "CHR ''/'' \<notin> set n" and "n \<noteq> []" and "n \<noteq> ''.''"
  shows "joinpath d n = d @ [n]"
proof -
  have "\<not> startswith n ''/''"
    using assms(1) startswith_sep by blast
  then show ?thesis
    using assms by (simp add: joinpath_def Path_def path_root_plain split_on_plain)
qed

lemma valid_extension_suffix:
  assumes "validate_file_extension filename = Inr ()"
  obtains a e where "filename = a @ e" "CHR ''/'' \<notin> set e" "4 \<le> length e"
proof -
  from assms obtain ext where ext: "ext \<in> set valid_extensions" "endswith (lower filename) ext"
    by (auto simp: validate_file_extension_def list_ex_iff split: if_splits)
  let ?k = "length filename - length ext"
  let ?e = "drop ?k filename"
  have len: "length ext \<le> length filename" and low: "lower ?e = ext"
    using ext(2) by (simp_all add: endswith_def lower_def drop_map)
  have shape: "CHR ''/'' \<notin> set ext" "4 \<le> length ext"
    using ext(1) by (auto simp: valid_extensions_def)
  have "CHR ''/'' \<notin> set ?e"
    using shape(1) low lower_no_sep [of ?e] by simp
  moreover have "4 \<le> length ?e"
    using shape(2) len low by (metis length_map lower_def)
  moreover have "filename = take ?k filename @ ?e"
    by simp
  ultimately show ?thesis
    using that by blast
qed

lemma valid_extension_basename:
  assumes "validate_file_extension filename = Inr ()"
  shows "4 \<le> length (path_name (Path filename))"
    and "joinpath d (path_name (Path filename)) = d @ [path_name (Path filename)]"
proof -
  obtain a e where f: "filename = a @ e" and e: "CHR ''/'' \<notin> set e" "4 \<le> length e"
    using assms by (rule valid_extension_suffix)
  have n: "path_name (Path filename) = last (split_on CHR ''/'' a) @ e"
    unfolding f using e by (intro basename_suffix) simp_all
  show len: "4 \<le> length (path_name (Path filename))"
    using e unfolding n by simp
  let ?n = "path_name (Path filename)"
  have ns: "CHR ''/'' \<notin> set ?n"
    by (rule basename_no_sep)
  have "?n \<noteq> []" "?n \<noteq> ''.''"
    using len by auto
  then show "joinpath d ?n = d @ [?n]"
    using ns by (intro joinpath_plain)
qed

section \<open>Effects of saving one file\<close>



lemma path_name_child:
  "CHR ''/'' \<notin> set n \<Longrightarrow> path_name (d @ [n]) = n"
  using startswith_sep [of n] by (auto simp: path_name_def)

lemma save_effect:
  assumes "save_image_from_bytes lib fs content filename d = (r, fs')"
  shows "dirs fs \<subseteq> dirs fs'"
    and "dirs fs' \<subseteq> dirs fs \<union> set (parents d) \<union> {d}"
    and "files fs' p \<noteq> files fs p \<Longrightarrow> p = joinpath d (path_name (Path filename))"
    and "is_file fs p \<Longrightarrow> is_file fs' p"
    and "r = Inr q \<Longrightarrow> q = joinpath d (path_name (Path filename)) \<and> is_file fs' q \<and> d \<in> dirs fs'"
  using assms
  by (auto simp: save_image_from_bytes_def save_to_def mkdir_def Let_def is_file_def
      split: sum.splits option.splits if_splits prod.splits)

lemma process_file_effect:
  assumes "process_file lib d fs content filename = (r, fs')"
  shows "dirs fs \<subseteq> dirs fs'"
    and "dirs fs' \<subseteq> dirs fs \<union> set (parents d) \<union> {d}"
    and "files fs' p \<noteq> files fs p \<Longrightarrow>
           validate_file_extension filename = Inr () \<and> p = d @ [path_name (Path filename)]"
    and "is_file fs p \<Longrightarrow> is_file fs' p"
    and "r = Inr n \<Longrightarrow>
           validate_file_extension filename = Inr () \<and> n = path_name (Path filename)
           \<and> is_file fs' (d @ [n])"
proof -
  show "dirs fs \<subseteq> dirs fs'"
    using assms save_effect(1)
    by (fastforce simp: process_file_def split: sum.splits prod.splits)
  show "dirs fs' \<subseteq> dirs fs \<union> set (parents d) \<union> {d}"
    using assms save_effect(2)
    by (fastforce simp: process_file_def split: sum.splits prod.splits)
  show "is_file fs p \<Longrightarrow> is_file fs' p"
    using assms save_effect(4)
    by (fastforce simp: process_file_def split: sum.splits prod.splits)
  show "files fs' p \<noteq> files fs p \<Longrightarrow>
           validate_file_extension filename = Inr () \<and> p = d @ [path_name (Path filename)]"
    using assms save_effect(3) valid_extension_basename(2) [of filename d]
    by (fastforce simp: process_file_def split: sum.splits prod.splits)
  show "r = Inr n \<Longrightarrow>
           validate_file_extension filename = Inr () \<and> n = path_name (Path filename)
           \<and> is_file fs' (d @ [n])"
    using assms save_effect(5) valid_extension_basename(2) [of filename d]
      path_name_child [OF basename_no_sep, of d filename]
    by (fastforce simp: process_file_def split: sum.splits prod.splits)
qed

lemma process_loop_effect:
  assumes "process_loop lib d pairs saved errs fs = (saved', errs', fs')"
  shows "(\<forall>n \<in> set saved'. n \<in> set saved \<or>
            (is_file fs' (d @ [n]) \<and>
             (\<exists>f \<in> snd ` set pairs. validate_file_extension f = Inr () \<and> n = path_name (Path f))))
       \<and> (\<forall>p. files fs' p \<noteq> files fs p \<longrightarrow>
            (\<exists>f \<in> snd ` set pairs. validate_file_extension f = Inr () \<and> p = d @ [path_name (Path f)]))
       \<and> (\<forall>p. is_file fs p \<longrightarrow> is_file fs' p)"
  using assms
proof (induction pairs arbitrary: saved errs fs)
  case Nil
  then show ?case by simp
next
  case (Cons pair rest)
  obtain content filename where pair: "pair = (content, filename)"
    by (cases pair)
  obtain r fs1 where one: "process_file lib d fs content filename = (r, fs1)"
    by (cases "process_file lib d fs content filename")
  note eff = process_file_effect [OF one]
  show ?case
  proof (cases r)
    case (Inl e)
    then have rec: "process_loop lib d rest saved (errs @ [filename @ '': '' @ str e]) fs1
        = (saved', errs', fs')"
      using Cons.prems pair one by simp
    note ih = Cons.IH [OF rec]
    show ?thesis
    proof (intro conjI allI impI ballI)
      fix n assume "n \<in> set saved'"
      then show "n \<in> set saved \<or>
            (is_file fs' (d @ [n]) \<and>
             (\<exists>f \<in> snd ` set (pair # rest). validate_file_extension f = Inr () \<and> n = path_name (Path f)))"
        using ih by auto
    next
      fix p assume ch: "files fs' p \<noteq> files fs p"
      show "\<exists>f \<in> snd ` set (pair # rest). validate_file_extension f = Inr () \<and> p = d @ [path_name (Path f)]"
      proof (cases "files fs' p = files fs1 p")
        case True
        then show ?thesis using ch eff(3) [of p] pair by auto
      next
        case False
        then show ?thesis using ih by auto
      qed
    next
      fix p assume "is_file fs p"
      then show "is_file fs' p" using eff(4) ih by blast
    qed
  next
    case (Inr name)
    then have rec: "process_loop lib d rest (saved @ [name]) errs fs1 = (saved', errs', fs')"
      using Cons.prems pair one by simp
    note ih = Cons.IH [OF rec]
    note nm = eff(5) [OF Inr]
    show ?thesis
    proof (intro conjI allI impI ballI)
      fix n assume "n \<in> set saved'"
      then consider "n \<in> set saved" | "n = name"
        | "is_file fs' (d @ [n]) \<and>
             (\<exists>f \<in> snd ` set rest. validate_file_extension f = Inr () \<and> n = path_name (Path f))"
        using ih by auto
      then show "n \<in> set saved \<or>
            (is_file fs' (d @ [n]) \<and>
             (\<exists>f \<in> snd ` set (pair # rest). validate_file_extension f = Inr () \<and> n = path_name (Path f)))"
      proof cases
        case 1
        then show ?thesis by simp
      next
        case 2
        then show ?thesis using nm ih pair by auto
      next
        case 3
        then show ?thesis by auto
      qed
    next
      fix p assume ch: "files fs' p \<noteq> files fs p"
      show "\<exists>f \<in> snd ` set (pair # rest). validate_file_extension f = Inr () \<and> p = d @ [path_name (Path f)]"
      proof (cases "files fs' p = files fs1 p")
        case True
        then show ?thesis using ch eff(3) [of p] pair by auto
      next
        case False
        then show ?thesis using ih by auto
      qed
    next
      fix p assume "is_file fs p"
      then show "is_file fs' p" using eff(4) ih by blast
    qed
  qed
qed

section \<open>Independence of the files of a batch\<close>







lemma images_dir: "joinpath user_dir ''images'' = user_dir @ [''images'']"
  by (rule joinpath_plain) simp_all

lemma process_uploaded_images_run:
  assumes "get_user_directory base fs u = Inr user_dir" and "u \<noteq> []"
  shows "process_uploaded_images lib base (Some u) fs contents filenames =
     (case process_loop lib (user_dir @ [''images'']) (zip contents filenames) [] [] fs of
        (saved_files, errs, fs') \<Rightarrow> (Inr (saved_files, errs), fs'))"
  using assms by (simp add: process_uploaded_images_def get_current_username_def images_dir)


lemma independent_run:
  "process_uploaded_images sample_library users_dir (Some ''alice'') alice_fs
       [''y'', ''d,QUI='', ''d,''] [''b.png'', ''x/../a.png'', ''c.jpg'']
   = (Inr ([''a.png''],
           [''b.png: Failed to decode base64 image: Input string does not contain a comma to split header and data.'',
            ''c.jpg: Failed to decode base64 image: Decoded image content is empty.'']),
      \<lparr>dirs = {[''/'', ''data'', ''users'', ''alice''], [''/''], [''/'', ''data''], [''/'', ''data'', ''users''],
                [''/'', ''data'', ''users'', ''alice'', ''images'']},
        files = [[''/'', ''data'', ''users'', ''alice'', ''images'', ''a.png''] \<mapsto> [0x41, 0x42]]\<rparr>)"
  by (simp add: run_defs upt_rec) auto


section \<open>Where uploaded files are stored\<close>

subsection \<open>The basename is the text after the last separator\<close>

lemma after_last_sep:
  obtains dir n where "f = dir @ n" "dir = [] \<or> last dir = sep" "sep \<notin> set n"
proof -
  let ?n = "rev (takeWhile (\<lambda>c. c \<noteq> sep) (rev f))"
  let ?dir = "rev (dropWhile (\<lambda>c. c \<noteq> sep) (rev f))"
  have "f = ?dir @ ?n"
    by (metis rev_append rev_rev_ident takeWhile_dropWhile_id)
  moreover have "sep \<notin> set ?n"
    by (auto dest: set_takeWhileD)
  moreover have "?dir = [] \<or> last ?dir = sep"
  proof (cases "dropWhile (\<lambda>c. c \<noteq> sep) (rev f)")
    case Nil
    then show ?thesis by simp
  next
    case (Cons c cs)
    then have "c = sep"
      using hd_dropWhile [of "\<lambda>c. c \<noteq> sep" "rev f"] by auto
    then show ?thesis
      using Cons by simp
  qed
  ultimately show ?thesis
    using that by blast
qed

lemma split_on_snoc_sep: "split_on sep (a @ [sep]) = split_on sep a @ [[]]"
  using split_on_not_Nil [of sep]
  by (induction a) (auto split: list.splits)

lemma last_split_on_dir:
  assumes "dir = [] \<or> last dir = sep"
  shows "last (split_on sep dir) = []"
proof (cases dir rule: rev_cases)
  case Nil
  then show ?thesis by simp
next
  case (snoc a c)
  then show ?thesis
    using assms by (simp add: split_on_snoc_sep)
qed

lemma path_name_after_last_slash:
  assumes dir: "dir = [] \<or> last dir = CHR ''/''"
    and n: "CHR ''/'' \<notin> set n" "n \<noteq> []" "n \<noteq> ''.''"
  shows "path_name (Path (dir @ n)) = n"
proof -
  have x: "\<not> startswith n ''/''"
    using n(1) startswith_sep by blast
  have "split_on CHR ''/'' (dir @ n) = butlast (split_on CHR ''/'' dir) @ [n]"
    using n(1) last_split_on_dir [OF dir] by (simp add: split_on_append)
  then have "Path (dir @ n) =
      (path_root (dir @ n) @ filter (\<lambda>x. x \<noteq> [] \<and> x \<noteq> ''.'') (butlast (split_on CHR ''/'' dir))) @ [n]"
    using n by (simp add: Path_def)
  then show ?thesis
    using x n by (simp add: path_name_def del: append_assoc)
qed

lemma valid_extension_after_last_slash:
  assumes "validate_file_extension f = Inr ()"
  obtains dir where "f = dir @ path_name (Path f)" "dir = [] \<or> last dir = CHR ''/''"
proof -
  obtain dir n where d: "f = dir @ n" "dir = [] \<or> last dir = CHR ''/''" "CHR ''/'' \<notin> set n"
    by (rule after_last_sep)
  obtain a e where e: "f = a @ e" "CHR ''/'' \<notin> set e" "4 \<le> length e"
    using assms by (rule valid_extension_suffix)
  have "length e \<le> length n"
  proof (rule ccontr)
    assume "\<not> length e \<le> length n"
    then have short: "length n < length e" by simp
    have "length dir + length n = length a + length e"
      using d(1) e(1) by (metis length_append)
    then have len: "length a < length dir"
      using short by simp
    then have "dir \<noteq> []" by auto
    then have slash: "last dir = CHR ''/''"
      using d(2) by simp
    have "dir @ n = a @ e"
      using d(1) e(1) by simp
    then obtain us where "(dir = a @ us \<and> us @ n = e) \<or> (dir @ us = a \<and> n = us @ e)"
      by (auto simp: append_eq_append_conv2)
    then have us: "dir = a @ us" "us @ n = e" "us \<noteq> []"
      using len by auto
    have "last dir = last us"
      using us(1) us(3) by simp
    moreover have "last us \<in> set e"
      using us(2) us(3) by auto
    ultimately have "last dir \<in> set e"
      by simp
    then show False
      using slash e(2) by simp
  qed
  then have "n \<noteq> []" "n \<noteq> ''.''"
    using e(3) by auto
  then have "path_name (Path f) = n"
    unfolding d(1) using d(2) d(3) by (intro path_name_after_last_slash)
  then show ?thesis
    using that d by simp
qed

subsection \<open>Saved files\<close>

text \<open>
  C3. The file is saved under the basename of the supplied filename, directory
  components stripped: for a filename \<open>dir @ n\<close> where \<open>dir\<close> is empty or ends with the
  separator and \<open>n\<close> is a name without separator (not empty, not \<open>.\<close>), the path
  \<open>save_image_from_bytes\<close> returns is the upload directory followed by \<open>n\<close> alone; for
  every filename it is the upload directory joined with \<open>Path(filename).name\<close>, which
  never contains a separator. In a batch, every saved name is the text after the last
  separator of one of the filenames, has no separator, is neither empty nor \<open>..\<close>, and
  its file exists in <base>/<username>/images; and every file the batch created or
  changed is such a file directly inside <base>/<username>/images.
\<close>

theorem saved_files_stay_in_images:
  "(save_image_from_bytes lib fs0 content filename upload_dir = (Inr file_path, fs1) \<longrightarrow>
      file_path = joinpath upload_dir (path_name (Path filename))
      \<and> CHR ''/'' \<notin> set (path_name (Path filename))
      \<and> is_file fs1 file_path)
   \<and> ((dir = [] \<or> last dir = CHR ''/'') \<and> CHR ''/'' \<notin> set n \<and> n \<noteq> [] \<and> n \<noteq> ''.''
        \<and> save_image_from_bytes lib fs0 content (dir @ n) upload_dir = (Inr file_path, fs1) \<longrightarrow>
      file_path = upload_dir @ [n] \<and> is_file fs1 (upload_dir @ [n]))
   \<and> (process_uploaded_images lib base (Some u) fs contents filenames = (Inr (saved, errs), fs') \<longrightarrow>
      (\<forall>m \<in> set saved.
          CHR ''/'' \<notin> set m \<and> m \<noteq> [] \<and> m \<noteq> ''..''
          \<and> (\<exists>f \<in> set filenames. \<exists>d. f = d @ m \<and> (d = [] \<or> last d = CHR ''/''))
          \<and> is_file fs' (joinpath base u @ [''images'', m]))
      \<and> (\<forall>p. files fs' p \<noteq> files fs p \<longrightarrow>
            (\<exists>f \<in> set filenames. \<exists>d m.
                f = d @ m \<and> (d = [] \<or> last d = CHR ''/'')
                \<and> CHR ''/'' \<notin> set m \<and> m \<noteq> [] \<and> m \<noteq> ''..''
                \<and> p = joinpath base u @ [''images'', m])))"
proof -
  have one: "file_path = joinpath upload_dir (path_name (Path filename))
      \<and> CHR ''/'' \<notin> set (path_name (Path filename)) \<and> is_file fs1 file_path"
    if "save_image_from_bytes lib fs0 content filename upload_dir = (Inr file_path, fs1)"
    using that save_effect(5) [of lib fs0 content filename upload_dir "Inr file_path" fs1 file_path]
      basename_no_sep [of filename]
    by blast
  have stripped: "file_path = upload_dir @ [n] \<and> is_file fs1 (upload_dir @ [n])"
    if shape: "dir = [] \<or> last dir = CHR ''/''" "CHR ''/'' \<notin> set n" "n \<noteq> []" "n \<noteq> ''.''"
      and run: "save_image_from_bytes lib fs0 content (dir @ n) upload_dir = (Inr file_path, fs1)"
  proof -
    have name: "path_name (Path (dir @ n)) = n"
      using shape by (rule path_name_after_last_slash)
    have "file_path = joinpath upload_dir (path_name (Path (dir @ n)))
        \<and> is_file fs1 file_path \<and> upload_dir \<in> dirs fs1"
      by (rule save_effect(5) [OF run refl])
    then have "file_path = joinpath upload_dir n \<and> is_file fs1 file_path"
      unfolding name by blast
    then show ?thesis
      using joinpath_plain [OF shape(2) shape(3) shape(4), of upload_dir] by metis
  qed
  have batch: "(\<forall>m \<in> set saved.
          CHR ''/'' \<notin> set m \<and> m \<noteq> [] \<and> m \<noteq> ''..''
          \<and> (\<exists>f \<in> set filenames. \<exists>d. f = d @ m \<and> (d = [] \<or> last d = CHR ''/''))
          \<and> is_file fs' (joinpath base u @ [''images'', m]))
      \<and> (\<forall>p. files fs' p \<noteq> files fs p \<longrightarrow>
            (\<exists>f \<in> set filenames. \<exists>d m.
                f = d @ m \<and> (d = [] \<or> last d = CHR ''/'')
                \<and> CHR ''/'' \<notin> set m \<and> m \<noteq> [] \<and> m \<noteq> ''..''
                \<and> p = joinpath base u @ [''images'', m]))"
    if run: "process_uploaded_images lib base (Some u) fs contents filenames = (Inr (saved, errs), fs')"
  proof -
    let ?d = "joinpath base u @ [''images'']"
    have dir: "get_user_directory base fs u = Inr (joinpath base u)" and name: "u \<noteq> []"
      using run
      by (auto simp: process_uploaded_images_def get_current_username_def get_user_directory_def Let_def
          split: if_splits)
    have loop: "process_loop lib ?d (zip contents filenames) [] [] fs = (saved, errs, fs')"
      using run process_uploaded_images_run [OF dir name, of lib contents filenames]
      by (auto split: prod.splits)
    note eff = process_loop_effect [OF loop]
    have names: "f \<in> snd ` set (zip contents filenames) \<Longrightarrow> f \<in> set filenames" for f
      by (auto dest: set_zip_rightD)
    have good: "CHR ''/'' \<notin> set (path_name (Path f)) \<and> path_name (Path f) \<noteq> []
        \<and> path_name (Path f) \<noteq> ''..''
        \<and> (\<exists>d. f = d @ path_name (Path f) \<and> (d = [] \<or> last d = CHR ''/''))"
      if ext: "validate_file_extension f = Inr ()" for f
    proof -
      obtain d where "f = d @ path_name (Path f)" "d = [] \<or> last d = CHR ''/''"
        using ext by (rule valid_extension_after_last_slash)
      then show ?thesis
        using valid_extension_basename(1) [OF ext] basename_no_sep [of f] by auto
    qed
    show ?thesis
    proof (intro conjI ballI allI impI)
      fix m assume m: "m \<in> set saved"
      have first: "\<forall>n \<in> set saved. n \<in> set [] \<or>
            (is_file fs' (?d @ [n]) \<and>
             (\<exists>f \<in> snd ` set (zip contents filenames).
                 validate_file_extension f = Inr () \<and> n = path_name (Path f)))"
        using eff by (rule conjunct1)
      have there: "is_file fs' (?d @ [m])"
        and ex: "\<exists>f \<in> snd ` set (zip contents filenames).
                 validate_file_extension f = Inr () \<and> m = path_name (Path f)"
        using bspec [OF first m] by simp_all
      from ex obtain f where f: "f \<in> snd ` set (zip contents filenames)" "validate_file_extension f = Inr ()"
          "m = path_name (Path f)"
        by (rule bexE) (erule conjE)
      show "CHR ''/'' \<notin> set m" "m \<noteq> []" "m \<noteq> ''..''"
        using good [OF f(2)] f(3) by simp_all
      show "\<exists>f \<in> set filenames. \<exists>d. f = d @ m \<and> (d = [] \<or> last d = CHR ''/'')"
        using good [OF f(2)] f(3) names [OF f(1)] by blast
      show "is_file fs' (joinpath base u @ [''images'', m])"
        using there by simp
    next
      fix p assume p: "files fs' p \<noteq> files fs p"
      have second: "\<forall>p. files fs' p \<noteq> files fs p \<longrightarrow>
            (\<exists>f \<in> snd ` set (zip contents filenames).
                validate_file_extension f = Inr () \<and> p = ?d @ [path_name (Path f)])"
        using eff by (rule conjunct1 [OF conjunct2])
      have "\<exists>f \<in> snd ` set (zip contents filenames).
                validate_file_extension f = Inr () \<and> p = ?d @ [path_name (Path f)]"
        by (rule mp [OF spec [OF second] p])
      then obtain f where f: "f \<in> snd ` set (zip contents filenames)" "validate_file_extension f = Inr ()"
          "p = ?d @ [path_name (Path f)]"
        by (rule bexE) (erule conjE)
      have "p = joinpath base u @ [''images'', path_name (Path f)]"
        using f(3) by simp
      then show "\<exists>f \<in> set filenames. \<exists>d m.
                f = d @ m \<and> (d = [] \<or> last d = CHR ''/'')
                \<and> CHR ''/'' \<notin> set m \<and> m \<noteq> [] \<and> m \<noteq> ''..''
                \<and> p = joinpath base u @ [''images'', m]"
        using good [OF f(2)] names [OF f(1)] by blast
    qed
  qed
  show ?thesis
    using one stripped batch by blast
qed

lemma save_run:
  "save_image_from_bytes sample_library alice_fs [0x41, 0x42] ''../../etc/a.png''
       [''/'', ''data'', ''users'', ''alice'', ''images'']
   = (Inr [''/'', ''data'', ''users'', ''alice'', ''images'', ''a.png''],
      \<lparr>dirs = {[''/'', ''data'', ''users'', ''alice''], [''/''], [''/'', ''data''], [''/'', ''data'', ''users''],
                [''/'', ''data'', ''users'', ''alice'', ''images'']},
        files = [[''/'', ''data'', ''users'', ''alice'', ''images'', ''a.png''] \<mapsto> [0x41, 0x42]]\<rparr>)"
  by (simp add: run_defs upt_rec) auto

theorem saved_files_stay_in_images_witness:
  "''../../etc/a.png'' = ''../../etc/'' @ ''a.png''
   \<and> last ''../../etc/'' = CHR ''/''
   \<and> CHR ''/'' \<notin> set ''a.png''
   \<and> save_image_from_bytes sample_library alice_fs [0x41, 0x42] ''../../etc/a.png''
        [''/'', ''data'', ''users'', ''alice'', ''images'']
       = (Inr [''/'', ''data'', ''users'', ''alice'', ''images'', ''a.png''],
          \<lparr>dirs = {[''/'', ''data'', ''users'', ''alice''], [''/''], [''/'', ''data''],
                    [''/'', ''data'', ''users''], [''/'', ''data'', ''users'', ''alice'', ''images'']},
            files = [[''/'', ''data'', ''users'', ''alice'', ''images'', ''a.png''] \<mapsto> [0x41, 0x42]]\<rparr>)
   \<and> fst (process_uploaded_images sample_library users_dir (Some ''alice'') alice_fs
        [''y'', ''d,QUI='', ''d,''] [''b.png'', ''x/../a.png'', ''c.jpg''])
       = Inr ([''a.png''],
           [''b.png: Failed to decode base64 image: Input string does not contain a comma to split header and data.'',
            ''c.jpg: Failed to decode base64 image: Decoded image content is empty.''])
   \<and> ''x/../a.png'' = ''x/../'' @ ''a.png''
   \<and> is_file (snd (process_uploaded_images sample_library users_dir (Some ''alice'') alice_fs
        [''y'', ''d,QUI='', ''d,''] [''b.png'', ''x/../a.png'', ''c.jpg'']))
        [''/'', ''data'', ''users'', ''alice'', ''images'', ''a.png'']"
proof -
  have j: "joinpath users_dir ''alice'' = [''/'', ''data'', ''users'', ''alice'']"
    by (simp add: run_defs)
  have shape: "''../../etc/a.png'' = ''../../etc/'' @ ''a.png''" "last ''../../etc/'' = CHR ''/''"
    "CHR ''/'' \<notin> set ''a.png''" "''x/../a.png'' = ''x/../'' @ ''a.png''"
    by simp_all
  note t = saved_files_stay_in_images [of sample_library alice_fs "[0x41, 0x42]" "''../../etc/a.png''"
      "[''/'', ''data'', ''users'', ''alice'', ''images'']"
      "[''/'', ''data'', ''users'', ''alice'', ''images'', ''a.png'']"
      "snd (save_image_from_bytes sample_library alice_fs [0x41, 0x42] ''../../etc/a.png''
         [''/'', ''data'', ''users'', ''alice'', ''images''])"
      "''../../etc/''" "''a.png''"
      users_dir "''alice''" alice_fs "[''y'', ''d,QUI='', ''d,'']" "[''b.png'', ''x/../a.png'', ''c.jpg'']"
      "[''a.png'']"
      "[''b.png: Failed to decode base64 image: Input string does not contain a comma to split header and data.'',
        ''c.jpg: Failed to decode base64 image: Decoded image content is empty.'']"
      "snd (process_uploaded_images sample_library users_dir (Some ''alice'') alice_fs
        [''y'', ''d,QUI='', ''d,''] [''b.png'', ''x/../a.png'', ''c.jpg''])"]
  have saved_one: "save_image_from_bytes sample_library alice_fs [0x41, 0x42] (''../../etc/'' @ ''a.png'')
        [''/'', ''data'', ''users'', ''alice'', ''images'']
      = (Inr [''/'', ''data'', ''users'', ''alice'', ''images'', ''a.png''],
         snd (save_image_from_bytes sample_library alice_fs [0x41, 0x42] ''../../etc/a.png''
           [''/'', ''data'', ''users'', ''alice'', ''images'']))"
    by (simp add: save_run)
  have stripped: "is_file (snd (save_image_from_bytes sample_library alice_fs [0x41, 0x42] ''../../etc/a.png''
           [''/'', ''data'', ''users'', ''alice'', ''images'']))
        ([''/'', ''data'', ''users'', ''alice'', ''images''] @ [''a.png''])"
    using t [THEN conjunct2, THEN conjunct1] shape(2) shape(3) saved_one by blast
  have batch_run: "process_uploaded_images sample_library users_dir (Some ''alice'') alice_fs
        [''y'', ''d,QUI='', ''d,''] [''b.png'', ''x/../a.png'', ''c.jpg'']
      = (Inr ([''a.png''],
           [''b.png: Failed to decode base64 image: Input string does not contain a comma to split header and data.'',
            ''c.jpg: Failed to decode base64 image: Decoded image content is empty.'']),
         snd (process_uploaded_images sample_library users_dir (Some ''alice'') alice_fs
           [''y'', ''d,QUI='', ''d,''] [''b.png'', ''x/../a.png'', ''c.jpg'']))"
    by (simp add: independent_run)
  have "\<forall>m \<in> set [''a.png''].
          CHR ''/'' \<notin> set m \<and> m \<noteq> [] \<and> m \<noteq> ''..''
          \<and> (\<exists>f \<in> set [''b.png'', ''x/../a.png'', ''c.jpg'']. \<exists>d. f = d @ m \<and> (d = [] \<or> last d = CHR ''/''))
          \<and> is_file (snd (process_uploaded_images sample_library users_dir (Some ''alice'') alice_fs
                [''y'', ''d,QUI='', ''d,''] [''b.png'', ''x/../a.png'', ''c.jpg'']))
              (joinpath users_dir ''alice'' @ [''images'', m])"
    using t [THEN conjunct2, THEN conjunct2] batch_run by blast
  then have on_disk: "is_file (snd (process_uploaded_images sample_library users_dir (Some ''alice'') alice_fs
        [''y'', ''d,QUI='', ''d,''] [''b.png'', ''x/../a.png'', ''c.jpg'']))
        [''/'', ''data'', ''users'', ''alice'', ''images'', ''a.png'']"
    unfolding j by simp
  have first: "fst (process_uploaded_images sample_library users_dir (Some ''alice'') alice_fs
        [''y'', ''d,QUI='', ''d,''] [''b.png'', ''x/../a.png'', ''c.jpg''])
       = Inr ([''a.png''],
           [''b.png: Failed to decode base64 image: Input string does not contain a comma to split header and data.'',
            ''c.jpg: Failed to decode base64 image: Decoded image content is empty.''])"
    by (simp add: independent_run)
  show ?thesis
    using shape save_run first on_disk stripped by (intro conjI)
qed

end
